theory Spec2Isabelle
  imports Main "HOL-Library.Sublist" "HOL-Library.List_Lexorder" "HOL-Library.Product_Lexorder"
begin

section \<open>Strings, the interpreter's tables, time\<close>

text \<open>
  A Python \<open>str\<close> is a sequence of Unicode code points, so it is modelled as a list of
  code points; \<open>str\<close> embeds an ASCII literal. What the interpreter and its standard
  library decide from tables that are not part of the repository is a parameter of the
  model, the record \<open>pylib\<close>: the Unicode character database for code points from 128 on
  (white space, alphanumeric, full lower-casing, the Cased and Case\_Ignorable
  properties), the UTF-8 decoder with \<open>errors='replace'\<close> on byte strings that are not pure
  ASCII, the validation \<open>urlsplit\<close> applies to a network location (bracket and NFKC
  checks, which raise \<open>ValueError\<close>) and urllib's list \<open>uses_netloc\<close>. The ASCII range
  is written out.
\<close>

type_synonym ustr = "nat list"

definition str :: "string \<Rightarrow> ustr" where
  "str s = map of_char s"

record pylib =
  u_isspace :: "nat \<Rightarrow> bool"
  u_isalnum :: "nat \<Rightarrow> bool"
  u_lower_full :: "nat \<Rightarrow> nat list"
  u_cased :: "nat \<Rightarrow> bool"
  u_case_ignorable :: "nat \<Rightarrow> bool"
  u_utf8_decode_replace :: "nat list \<Rightarrow> nat list"
  netloc_invalid :: "ustr \<Rightarrow> bool"
  uses_netloc :: "ustr list"

definition py_isspace :: "pylib \<Rightarrow> nat \<Rightarrow> bool" where
  "py_isspace L c =
     (if c < 128 then (9 \<le> c \<and> c \<le> 13) \<or> (28 \<le> c \<and> c \<le> 32) else u_isspace L c)"

definition ascii_isalpha :: "nat \<Rightarrow> bool" where
  "ascii_isalpha c = ((65 \<le> c \<and> c \<le> 90) \<or> (97 \<le> c \<and> c \<le> 122))"

definition ascii_isdigit :: "nat \<Rightarrow> bool" where
  "ascii_isdigit c = (48 \<le> c \<and> c \<le> 57)"

definition py_isalnum :: "pylib \<Rightarrow> nat \<Rightarrow> bool" where
  "py_isalnum L c = (if c < 128 then ascii_isalpha c \<or> ascii_isdigit c else u_isalnum L c)"

text \<open>
  \<open>str.lower()\<close>: every code point is replaced by its full lower-case mapping, except
  U+03A3 (capital sigma), which becomes U+03C2 in the Final\_Sigma context (a cased code
  point before it, across case-ignorable ones, and none after it) and U+03C3 otherwise.
  \<open>left\<close> holds the code points to the left, nearest first.
\<close>

definition final_sigma :: "pylib \<Rightarrow> ustr \<Rightarrow> ustr \<Rightarrow> bool" where
  "final_sigma L left right =
     ((case dropWhile (u_case_ignorable L) left of [] \<Rightarrow> False | c # _ \<Rightarrow> u_cased L c) \<and>
      (case dropWhile (u_case_ignorable L) right of [] \<Rightarrow> True | c # _ \<Rightarrow> \<not> u_cased L c))"

definition lower_char :: "pylib \<Rightarrow> ustr \<Rightarrow> nat \<Rightarrow> ustr \<Rightarrow> ustr" where
  "lower_char L left c right =
     (if c < 128 then (if 65 \<le> c \<and> c \<le> 90 then [c + 32] else [c])
      else if c = 931 then (if final_sigma L left right then [962] else [963])
      else u_lower_full L c)"

fun lower_from :: "pylib \<Rightarrow> ustr \<Rightarrow> ustr \<Rightarrow> ustr" where
  "lower_from L left [] = []"
| "lower_from L left (c # cs) = lower_char L left c cs @ lower_from L (c # left) cs"

definition py_lower :: "pylib \<Rightarrow> ustr \<Rightarrow> ustr" where
  "py_lower L s = lower_from L [] s"

definition py_lstrip :: "pylib \<Rightarrow> ustr \<Rightarrow> ustr" where
  "py_lstrip L s = dropWhile (py_isspace L) s"

definition py_rstrip :: "pylib \<Rightarrow> ustr \<Rightarrow> ustr" where
  "py_rstrip L s = rev (dropWhile (py_isspace L) (rev s))"

definition py_strip :: "pylib \<Rightarrow> ustr \<Rightarrow> ustr" where
  "py_strip L s = py_rstrip L (py_lstrip L s)"

text \<open>\<open>s.rstrip(chars)\<close> and \<open>s.lstrip(chars)\<close> with an explicit character set.\<close>

definition rstrip_chars :: "nat list \<Rightarrow> ustr \<Rightarrow> ustr" where
  "rstrip_chars chars s = rev (dropWhile (\<lambda>c. c \<in> set chars) (rev s))"

definition lstrip_chars :: "nat list \<Rightarrow> ustr \<Rightarrow> ustr" where
  "lstrip_chars chars s = dropWhile (\<lambda>c. c \<in> set chars) s"

text \<open>\<open>s.split()\<close>: the maximal runs of non-white-space code points.\<close>

fun split_ws_from :: "pylib \<Rightarrow> ustr \<Rightarrow> ustr \<Rightarrow> ustr list" where
  "split_ws_from L word [] = (if word = [] then [] else [word])"
| "split_ws_from L word (c # cs) =
     (if py_isspace L c then (if word = [] then [] else [word]) @ split_ws_from L [] cs
      else split_ws_from L (word @ [c]) cs)"

definition py_split_ws :: "pylib \<Rightarrow> ustr \<Rightarrow> ustr list" where
  "py_split_ws L s = split_ws_from L [] s"

fun py_join :: "ustr \<Rightarrow> ustr list \<Rightarrow> ustr" where
  "py_join sep [] = []"
| "py_join sep [p] = p"
| "py_join sep (p # q # ps) = p @ sep @ py_join sep (q # ps)"

text \<open>\<open>s.split(sep)\<close> for a one-character separator: the pieces between the separators.\<close>

fun split_on_from :: "nat \<Rightarrow> ustr \<Rightarrow> ustr \<Rightarrow> ustr list" where
  "split_on_from sep piece [] = [piece]"
| "split_on_from sep piece (c # cs) =
     (if c = sep then piece # split_on_from sep [] cs else split_on_from sep (piece @ [c]) cs)"

definition py_split_on :: "nat \<Rightarrow> ustr \<Rightarrow> ustr list" where
  "py_split_on sep s = split_on_from sep [] s"

text \<open>\<open>s.split(sep, 1)\<close> where \<open>sep\<close> occurs in \<open>s\<close>: the text before the first
  separator and the text after it; \<open>s.rsplit(sep, 1)\<close> likewise at the last one.\<close>

definition split_first :: "nat \<Rightarrow> ustr \<Rightarrow> ustr \<times> ustr" where
  "split_first sep s = (takeWhile (\<lambda>c. c \<noteq> sep) s, drop 1 (dropWhile (\<lambda>c. c \<noteq> sep) s))"

definition rsplit_last :: "nat \<Rightarrow> ustr \<Rightarrow> ustr \<times> ustr" where
  "rsplit_last sep s =
     (rev (drop 1 (dropWhile (\<lambda>c. c \<noteq> sep) (rev s))), rev (takeWhile (\<lambda>c. c \<noteq> sep) (rev s)))"

definition startswith :: "ustr \<Rightarrow> ustr \<Rightarrow> bool" where
  "startswith s p = (take (length p) s = p)"

text \<open>Decimal rendering of a natural number (\<open>str(n)\<close>), and zero padding (\<open>%04d\<close>).\<close>

function show_nat :: "nat \<Rightarrow> ustr" where
  "show_nat n = (if n < 10 then [48 + n] else show_nat (n div 10) @ [48 + n mod 10])"
  by pat_completeness auto
termination
  by (relation "measure (\<lambda>n. n)") auto

definition zero_pad :: "nat \<Rightarrow> ustr \<Rightarrow> ustr" where
  "zero_pad width s = replicate (width - length s) 48 @ s"

text \<open>
  Timestamps (\<open>timestamptz\<close>, Python \<open>datetime\<close>) are microseconds since 1970-01-01T00:00
  on the civil time line of the database session (a time zone with a fixed offset), so
  that order, differences and the calendar date are read off one number. Wall-clock
  readings of \<open>int(time.time())\<close> are whole seconds.
\<close>

definition usec :: "int \<Rightarrow> int" where
  "usec seconds = seconds * 1000000"

text \<open>The proleptic Gregorian date of a day number (days since 1970-01-01), as
  \<open>datetime.date()\<close> gives it, and \<open>str(date)\<close>, the ISO form \<open>YYYY-MM-DD\<close>.\<close>

definition civil_from_days :: "int \<Rightarrow> int \<times> int \<times> int" where
  "civil_from_days days =
     (let z = days + 719468;
          era = z div 146097;
          doe = z - era * 146097;
          yoe = (doe - doe div 1460 + doe div 36524 - doe div 146096) div 365;
          doy = doe - (365 * yoe + yoe div 4 - yoe div 100);
          mp = (5 * doy + 2) div 153;
          d = doy - (153 * mp + 2) div 5 + 1;
          m = (if mp < 10 then mp + 3 else mp - 9);
          y = yoe + era * 400 + (if m \<le> 2 then 1 else 0)
      in (y, m, d))"

definition date_str :: "int \<Rightarrow> ustr" where
  "date_str ts =
     (case civil_from_days (ts div 86400000000) of
        (y, m, d) \<Rightarrow> zero_pad 4 (show_nat (nat y)) @ [45] @ zero_pad 2 (show_nat (nat m)) @ [45]
                      @ zero_pad 2 (show_nat (nat d)))"

section \<open>urllib.parse, as normalize\_url uses it\<close>

text \<open>
  The functions of the standard library that \<open>normalize_url\<close> calls, after CPython 3.11:
  \<open>urlsplit\<close>, \<open>parse_qsl(..., keep_blank_values=True)\<close>, \<open>urlencode(..., doseq=True)\<close> on
  pairs of strings, and \<open>urlunsplit\<close>. An exception is a value of \<open>py_error\<close>.
\<close>

datatype py_error = ValueError | UnicodeEncodeError

record url_parts =
  up_scheme :: ustr
  up_netloc :: ustr
  up_path :: ustr
  up_query :: ustr
  up_fragment :: ustr

definition scheme_char :: "nat \<Rightarrow> bool" where
  "scheme_char c = (ascii_isalpha c \<or> ascii_isdigit c \<or> c = 43 \<or> c = 45 \<or> c = 46)"

text \<open>The scheme step of \<open>urlsplit\<close>: \<open>i = url.find(':')\<close>, and the text before a colon
  is a scheme when it is not empty, starts with an ASCII letter and has scheme characters only.\<close>

definition split_scheme :: "pylib \<Rightarrow> ustr \<Rightarrow> ustr \<times> ustr" where
  "split_scheme L url =
     (if 58 \<in> set url then
        (let pre = takeWhile (\<lambda>c. c \<noteq> 58) url in
         if pre \<noteq> [] \<and> ascii_isalpha (hd pre) \<and> list_all scheme_char pre
         then (py_lower L pre, drop (length pre + 1) url)
         else ([], url))
      else ([], url))"

definition netloc_delim :: "nat \<Rightarrow> bool" where
  "netloc_delim c = (c = 47 \<or> c = 63 \<or> c = 35)"

definition urlsplit :: "pylib \<Rightarrow> ustr \<Rightarrow> py_error + url_parts" where
  "urlsplit L url0 =
     (let url1 = lstrip_chars [0..<33] url0;
          url2 = filter (\<lambda>c. c \<noteq> 9 \<and> c \<noteq> 13 \<and> c \<noteq> 10) url1;
          (scheme, url3) = split_scheme L url2;
          (netloc, url4) = (if take 2 url3 = [47, 47]
                            then (takeWhile (\<lambda>c. \<not> netloc_delim c) (drop 2 url3),
                                  dropWhile (\<lambda>c. \<not> netloc_delim c) (drop 2 url3))
                            else ([], url3));
          (url5, fragment) = (if 35 \<in> set url4 then split_first 35 url4 else (url4, []));
          (path, query) = (if 63 \<in> set url5 then split_first 63 url5 else (url5, []))
      in if netloc_invalid L netloc then Inl ValueError
         else Inr \<lparr>up_scheme = scheme, up_netloc = netloc, up_path = path, up_query = query,
                   up_fragment = fragment\<rparr>)"

text \<open>\<open>unquote\<close>: each maximal run of ASCII characters is percent-decoded to bytes and the
  bytes are decoded as UTF-8 with replacement; other characters stay. A string with no
  percent sign is returned as it is.\<close>

definition hex_digit :: "nat \<Rightarrow> bool" where
  "hex_digit c = (ascii_isdigit c \<or> (65 \<le> c \<and> c \<le> 70) \<or> (97 \<le> c \<and> c \<le> 102))"

definition hex_val :: "nat \<Rightarrow> nat" where
  "hex_val c = (if ascii_isdigit c then c - 48 else if 65 \<le> c \<and> c \<le> 70 then c - 55 else c - 87)"

fun unquote_to_bytes :: "nat list \<Rightarrow> nat list" where
  "unquote_to_bytes [] = []"
| "unquote_to_bytes (c # cs) =
     (if c = 37 then
        (case cs of
           h1 # h2 # rest \<Rightarrow>
             if hex_digit h1 \<and> hex_digit h2 then (16 * hex_val h1 + hex_val h2) # unquote_to_bytes rest
             else 37 # unquote_to_bytes cs
         | _ \<Rightarrow> 37 # unquote_to_bytes cs)
      else c # unquote_to_bytes cs)"

definition utf8_decode_replace :: "pylib \<Rightarrow> nat list \<Rightarrow> ustr" where
  "utf8_decode_replace L bs = (if list_all (\<lambda>b. b < 128) bs then bs else u_utf8_decode_replace L bs)"

fun unquote_runs :: "pylib \<Rightarrow> ustr \<Rightarrow> ustr \<Rightarrow> ustr" where
  "unquote_runs L run [] = utf8_decode_replace L (unquote_to_bytes run)"
| "unquote_runs L run (c # cs) =
     (if c < 128 then unquote_runs L (run @ [c]) cs
      else utf8_decode_replace L (unquote_to_bytes run) @ c # unquote_runs L [] cs)"

definition unquote :: "pylib \<Rightarrow> ustr \<Rightarrow> ustr" where
  "unquote L s = (if 37 \<in> set s then unquote_runs L [] s else s)"

definition plus_to_space :: "ustr \<Rightarrow> ustr" where
  "plus_to_space s = map (\<lambda>c. if c = 43 then 32 else c) s"

definition parse_field :: "pylib \<Rightarrow> ustr \<Rightarrow> ustr \<times> ustr" where
  "parse_field L name_value =
     (let (n, v) = (if 61 \<in> set name_value then split_first 61 name_value else (name_value, []))
      in (unquote L (plus_to_space n), unquote L (plus_to_space v)))"

definition parse_qsl :: "pylib \<Rightarrow> ustr \<Rightarrow> (ustr \<times> ustr) list" where
  "parse_qsl L qs = map (parse_field L) (filter (\<lambda>name_value. name_value \<noteq> []) (py_split_on 38 qs))"

text \<open>\<open>quote_plus\<close>: the UTF-8 bytes of the string (strict: a surrogate or a number that is no
  code point raises), letters, digits and \<open>_.-~\<close> kept, a space as \<open>+\<close>, every other byte as
  \<open>%XX\<close> in upper-case hexadecimal.\<close>

definition utf8_encode_char :: "nat \<Rightarrow> nat list option" where
  "utf8_encode_char c =
     (if c < 128 then Some [c]
      else if c < 2048 then Some [192 + c div 64, 128 + c mod 64]
      else if c < 65536 then
        (if 55296 \<le> c \<and> c \<le> 57343 then None
         else Some [224 + c div 4096, 128 + (c div 64) mod 64, 128 + c mod 64])
      else if c < 1114112 then
        Some [240 + c div 262144, 128 + (c div 4096) mod 64, 128 + (c div 64) mod 64, 128 + c mod 64]
      else None)"

fun utf8_encode :: "ustr \<Rightarrow> nat list option" where
  "utf8_encode [] = Some []"
| "utf8_encode (c # cs) =
     (case utf8_encode_char c of
        None \<Rightarrow> None
      | Some bs \<Rightarrow> (case utf8_encode cs of None \<Rightarrow> None | Some rest \<Rightarrow> Some (bs @ rest)))"

definition hex_upper :: "nat \<Rightarrow> nat" where
  "hex_upper v = (if v < 10 then 48 + v else 55 + v)"

definition always_safe :: "nat \<Rightarrow> bool" where
  "always_safe b = (ascii_isalpha b \<or> ascii_isdigit b \<or> b = 95 \<or> b = 46 \<or> b = 45 \<or> b = 126)"

definition quote_byte :: "nat \<Rightarrow> ustr" where
  "quote_byte b =
     (if always_safe b then [b] else if b = 32 then [43]
      else [37, hex_upper (b div 16), hex_upper (b mod 16)])"

definition quote_plus :: "ustr \<Rightarrow> py_error + ustr" where
  "quote_plus s = (case utf8_encode s of None \<Rightarrow> Inl UnicodeEncodeError
                   | Some bs \<Rightarrow> Inr (concat (map quote_byte bs)))"

fun urlencode_fields :: "(ustr \<times> ustr) list \<Rightarrow> py_error + ustr list" where
  "urlencode_fields [] = Inr []"
| "urlencode_fields ((k, v) # kvs) =
     (case quote_plus k of
        Inl e \<Rightarrow> Inl e
      | Inr qk \<Rightarrow>
         (case quote_plus v of
            Inl e \<Rightarrow> Inl e
          | Inr qv \<Rightarrow>
             (case urlencode_fields kvs of
                Inl e \<Rightarrow> Inl e
              | Inr rest \<Rightarrow> Inr ((qk @ [61] @ qv) # rest))))"

definition urlencode :: "(ustr \<times> ustr) list \<Rightarrow> py_error + ustr" where
  "urlencode query = (case urlencode_fields query of Inl e \<Rightarrow> Inl e | Inr l \<Rightarrow> Inr (py_join [38] l))"

definition urlunsplit :: "pylib \<Rightarrow> url_parts \<Rightarrow> ustr" where
  "urlunsplit L p =
     (let url1 = (if up_netloc p \<noteq> [] \<or>
                     (up_scheme p \<noteq> [] \<and> up_scheme p \<in> set (uses_netloc L) \<and> take 2 (up_path p) \<noteq> [47, 47])
                  then [47, 47] @ up_netloc p @
                       (if up_path p \<noteq> [] \<and> take 1 (up_path p) \<noteq> [47] then [47] @ up_path p
                        else up_path p)
                  else up_path p);
          url2 = (if up_scheme p \<noteq> [] then up_scheme p @ [58] @ url1 else url1);
          url3 = (if up_query p \<noteq> [] then url2 @ [63] @ up_query p else url2);
          url4 = (if up_fragment p \<noteq> [] then url3 @ [35] @ up_fragment p else url3)
      in url4)"

section \<open>Dedupe keys (normalize\_url, normalize\_title, compute\_dedupe\_key)\<close>

definition tracking_param :: "pylib \<Rightarrow> ustr \<times> ustr \<Rightarrow> bool" where
  "tracking_param L kv =
     (let lk = py_lower L (fst kv)
      in startswith lk (str ''utm_'') \<or> lk = str ''fbclid'' \<or> lk = str ''gclid'')"

definition drop_default_port :: "ustr \<Rightarrow> ustr \<Rightarrow> ustr" where
  "drop_default_port scheme netloc =
     (if 58 \<in> set netloc then
        (let (host, port) = rsplit_last 58 netloc
         in if (scheme = str ''http'' \<and> port = str ''80'') \<or> (scheme = str ''https'' \<and> port = str ''443'')
            then host else netloc)
      else netloc)"

definition normalize_url :: "pylib \<Rightarrow> ustr \<Rightarrow> ustr" where
  "normalize_url L raw0 =
     (let raw = py_strip L raw0 in
      if raw = [] then []
      else
        (case urlsplit L raw of
           Inl e \<Rightarrow> raw
         | Inr parts \<Rightarrow>
            (let scheme = (if py_lower L (up_scheme parts) = [] then str ''http''
                           else py_lower L (up_scheme parts));
                 netloc = drop_default_port scheme (py_lower L (up_netloc parts));
                 path = rstrip_chars [47] (up_path parts);
                 qs = parse_qsl L (up_query parts);
                 filtered = sort (filter (\<lambda>kv. \<not> tracking_param L kv) qs)
             in case urlencode filtered of
                  Inl e \<Rightarrow> raw
                | Inr query \<Rightarrow>
                    urlunsplit L \<lparr>up_scheme = scheme, up_netloc = netloc, up_path = path,
                                  up_query = query, up_fragment = []\<rparr>)))"

fun normalize_title_loop :: "pylib \<Rightarrow> ustr \<Rightarrow> bool \<Rightarrow> ustr \<Rightarrow> ustr" where
  "normalize_title_loop L cleaned last_space [] = cleaned"
| "normalize_title_loop L cleaned last_space (ch # rest) =
     (if py_isalnum L ch then normalize_title_loop L (cleaned @ [ch]) False rest
      else if \<not> last_space then normalize_title_loop L (cleaned @ [32]) True rest
      else normalize_title_loop L cleaned last_space rest)"

definition normalize_title :: "pylib \<Rightarrow> ustr \<Rightarrow> ustr" where
  "normalize_title L raw =
     py_join [32] (py_split_ws L (normalize_title_loop L [] False (py_lower L raw)))"

text \<open>A row of the search (the dict \<open>item\<close>): the columns the SELECT of \<open>pick_search_sql\<close> names.\<close>

record match_row =
  m_id :: nat
  m_title :: "ustr option"
  m_url :: "ustr option"
  m_summary :: "ustr option"
  m_category_guess :: "ustr option"
  m_ts :: "int option"
  m_source_name :: "ustr option"

text \<open>\<open>x or ""\<close> for an optional string.\<close>

definition or_empty :: "ustr option \<Rightarrow> ustr" where
  "or_empty x = (case x of None \<Rightarrow> [] | Some s \<Rightarrow> s)"

definition compute_dedupe_key :: "pylib \<Rightarrow> match_row \<Rightarrow> ustr \<times> ustr" where
  "compute_dedupe_key L item =
     (let url = normalize_url L (or_empty (m_url item)) in
      if url \<noteq> [] then (url, url)
      else
        (let source = py_lower L (py_strip L (or_empty (m_source_name item)));
             title = normalize_title L (or_empty (m_title item));
             day = (case m_ts item of None \<Rightarrow> [] | Some ts \<Rightarrow> date_str ts);
             parts = filter (\<lambda>p. p \<noteq> []) [source, title, day];
             key = (if parts \<noteq> [] then py_join [124] parts else str ''unknown:'' @ show_nat (m_id item))
         in (key, [])))"

text \<open>
  An instance of the tables for the examples: the library of CPython 3.11 as far as ASCII
  text goes. No code point from 128 on is taken as white space, alphanumeric, cased or
  case-ignorable, lower-casing leaves such code points as they are, the decoder replaces every byte
  from 128 on by U+FFFD, and a network location is refused when only one of the two
  brackets occurs in it.
\<close>

definition ascii_lib :: pylib where
  "ascii_lib =
     \<lparr>u_isspace = (\<lambda>c. False),
      u_isalnum = (\<lambda>c. False),
      u_lower_full = (\<lambda>c. [c]),
      u_cased = (\<lambda>c. ascii_isalpha c),
      u_case_ignorable = (\<lambda>c. c \<in> set [39, 46, 58, 94, 96]),
      u_utf8_decode_replace = map (\<lambda>b. if b < 128 then b else 65533),
      netloc_invalid = (\<lambda>n. (91 \<in> set n) \<noteq> (93 \<in> set n)),
      uses_netloc = map str ['''', ''ftp'', ''http'', ''gopher'', ''nntp'', ''telnet'', ''imap'',
        ''wais'', ''file'', ''mms'', ''https'', ''shttp'', ''snews'', ''prospero'', ''rtsp'',
        ''rtspu'', ''rsync'', ''svn'', ''svn+ssh'', ''sftp'', ''nfs'', ''git'', ''git+ssh'',
        ''ws'', ''wss'']\<rparr>"

section \<open>The delivery table (public.alert\_deliveries)\<close>

datatype status = PENDING | SENT | FAILED | OTHER ustr

record delivery =
  d_alert_id :: nat
  d_user_id :: ustr
  d_article_id :: nat
  d_channel :: ustr
  d_status :: status
  d_attempt_count :: int
  d_last_attempt_at :: "int option"
  d_next_attempt_at :: "int option"
  d_queued_at :: "int option"
  d_dedupe_key :: "ustr option"
  d_dedupe_group :: "ustr option"
  d_normalized_url :: "ustr option"
  d_priority :: "ustr option"
  d_created_at :: "int option"
  d_error :: "ustr option"
  d_delivered_at :: "int option"

text \<open>A row of the due query of \<open>run_once\<close> (the dict \<open>d\<close> handed to the markers).\<close>

record due_row =
  dr_alert_id :: nat
  dr_user_id :: ustr
  dr_article_id :: nat
  dr_channel :: ustr
  dr_attempt_count :: int
  dr_target :: ustr
  dr_dedupe_key :: "ustr option"
  dr_priority :: "ustr option"

text \<open>An active alert joined with its saved search (a row \<open>al\<close> of \<open>run_once\<close>), and the
  resolved preferences of its owner (\<open>get_user_prefs\<close>).\<close>

record alert =
  al_alert_id :: nat
  al_user_id :: ustr
  al_channel :: ustr
  al_target :: ustr
  al_name :: "ustr option"
  al_query :: ustr
  al_days :: int
  al_category :: "ustr option"
  al_source :: "ustr option"

record prefs =
  p_dedupe_window_sec :: int
  p_immediate_priorities :: "ustr list"
  p_digest_priorities :: "ustr list"
  p_priority_categories :: "ustr list"
  p_channels_enabled :: "ustr list"

type_synonym dkey = "nat \<times> nat \<times> ustr"

definition key_of :: "delivery \<Rightarrow> dkey" where
  "key_of d = (d_alert_id d, d_article_id d, d_channel d)"

definition due_key :: "due_row \<Rightarrow> dkey" where
  "due_key r = (dr_alert_id r, dr_article_id r, dr_channel r)"

text \<open>\<open>UPDATE ... WHERE alert_id=%s AND article_id=%s AND channel=%s\<close>: every row with the
  key is rewritten, every other row is left as it is.\<close>

definition sql_update_where_key :: "dkey \<Rightarrow> (delivery \<Rightarrow> delivery) \<Rightarrow> delivery list \<Rightarrow> delivery list" where
  "sql_update_where_key k f tbl = map (\<lambda>d. if key_of d = k then f d else d) tbl"

definition compute_backoff_seconds :: "int \<Rightarrow> int \<Rightarrow> int \<Rightarrow> int" where
  "compute_backoff_seconds attempt_count base max_sec =
     min max_sec (base * 2 ^ nat (max (attempt_count - 1) 0))"

definition priority_for_search :: "pylib \<Rightarrow> alert \<Rightarrow> ustr list \<Rightarrow> ustr" where
  "priority_for_search L search p1_categories =
     (if py_strip L (al_query search) \<noteq> [] then str ''P0''
      else
        (let category = py_lower L (py_strip L (or_empty (al_category search)))
         in if category \<noteq> [] \<and> category \<in> set p1_categories then str ''P1'' else str ''P2''))"

definition set_failed :: "ustr \<Rightarrow> int \<Rightarrow> int \<Rightarrow> delivery \<Rightarrow> delivery" where
  "set_failed err backoff now d =
     d\<lparr>d_status := FAILED,
       d_error := Some err,
       d_attempt_count := d_attempt_count d + 1,
       d_last_attempt_at := Some now,
       d_next_attempt_at := Some (now + usec backoff)\<rparr>"

definition set_sent :: "int \<Rightarrow> delivery \<Rightarrow> delivery" where
  "set_sent now d =
     d\<lparr>d_status := SENT,
       d_error := None,
       d_delivered_at := Some now,
       d_attempt_count := d_attempt_count d + 1,
       d_last_attempt_at := Some now,
       d_next_attempt_at := Some now\<rparr>"

text \<open>\<open>mark_delivery_sent\<close>: the UPDATE at the transaction time \<open>now\<close>.\<close>

definition mark_delivery_sent :: "int \<Rightarrow> due_row \<Rightarrow> delivery list \<Rightarrow> delivery list" where
  "mark_delivery_sent now delivery tbl = sql_update_where_key (due_key delivery) (set_sent now) tbl"

text \<open>The due query: \<open>status IN ('PENDING','FAILED') AND next_attempt_at <= now() AND
  attempt_count < max_attempts\<close> (a NULL \<open>next_attempt_at\<close> compares to NULL and the row
  is not selected, so every selected row has one), for one alert and channel, ordered by
  \<open>next_attempt_at\<close>, at most \<open>max_per_user\<close> rows; a negative LIMIT is an error of the
  database.\<close>

definition is_due :: "int \<Rightarrow> int \<Rightarrow> delivery \<Rightarrow> bool" where
  "is_due max_attempts now d =
     ((d_status d = PENDING \<or> d_status d = FAILED) \<and>
      (case d_next_attempt_at d of None \<Rightarrow> False | Some t \<Rightarrow> t \<le> now) \<and>
      d_attempt_count d < max_attempts)"

datatype sql_error = NegativeLimit

definition to_due_row :: "alert \<Rightarrow> delivery \<Rightarrow> due_row" where
  "to_due_row al d =
     \<lparr>dr_alert_id = d_alert_id d, dr_user_id = d_user_id d, dr_article_id = d_article_id d,
      dr_channel = d_channel d, dr_attempt_count = d_attempt_count d, dr_target = al_target al,
      dr_dedupe_key = d_dedupe_key d, dr_priority = d_priority d\<rparr>"


section \<open>Claiming (the INSERT of run\_once)\<close>

text \<open>\<open>INSERT ... ON CONFLICT (alert_id, article_id, channel) DO NOTHING RETURNING id\<close>:
  with a row of that key in the table nothing is inserted and nothing is returned;
  otherwise the new PENDING row is added and its id returned (here: \<open>True\<close>).\<close>

definition new_delivery :: "alert \<Rightarrow> nat \<Rightarrow> ustr \<Rightarrow> ustr \<Rightarrow> ustr \<Rightarrow> int \<Rightarrow> delivery" where
  "new_delivery al article dedupe_key normalized_url search_priority now =
     \<lparr>d_alert_id = al_alert_id al, d_user_id = al_user_id al, d_article_id = article,
      d_channel = al_channel al, d_status = PENDING, d_attempt_count = 0,
      d_last_attempt_at = None, d_next_attempt_at = Some now, d_queued_at = Some now,
      d_dedupe_key = Some dedupe_key, d_dedupe_group = Some dedupe_key,
      d_normalized_url = (if normalized_url = [] then None else Some normalized_url),
      d_priority = Some search_priority, d_created_at = Some now, d_error = None,
      d_delivered_at = None\<rparr>"

definition sql_insert_delivery :: "delivery \<Rightarrow> delivery list \<Rightarrow> bool \<times> delivery list" where
  "sql_insert_delivery row tbl =
     (if key_of row \<in> set (map key_of tbl) then (False, tbl) else (True, tbl @ [row]))"

record counters =
  n_sent :: int
  n_failed :: int
  n_queued :: int
  n_skipped :: int
  priority_counts :: "ustr \<Rightarrow> int"

text \<open>The recent-duplicate query: the dedupe keys, among \<open>keys\<close>, of the owner's deliveries
  on this channel created within the dedupe window.\<close>

definition recent_keys :: "alert \<Rightarrow> prefs \<Rightarrow> ustr list \<Rightarrow> int \<Rightarrow> delivery list \<Rightarrow> ustr set" where
  "recent_keys al pr keys now tbl =
     set (concat (map (\<lambda>d.
       case d_dedupe_key d of
         None \<Rightarrow> []
       | Some k \<Rightarrow>
           if d_user_id d = al_user_id al \<and> d_channel d = al_channel al \<and> k \<in> set keys \<and>
              (case d_created_at d of None \<Rightarrow> False
               | Some c \<Rightarrow> c \<ge> now - usec (p_dedupe_window_sec pr)) \<and>
              (d_status d = PENDING \<or> d_status d = FAILED \<or> d_status d = SENT)
           then [k] else []) tbl))"

text \<open>The INSERT of a claim and its count: queued when a row was returned, skipped when
  the key was there already.\<close>

definition claim_insert ::
  "alert \<Rightarrow> nat \<Rightarrow> ustr \<Rightarrow> ustr \<Rightarrow> ustr \<Rightarrow> int \<Rightarrow> delivery list \<times> counters \<Rightarrow>
   delivery list \<times> counters" where
  "claim_insert al article dedupe_key normalized_url search_priority now st =
     (case sql_insert_delivery
             (new_delivery al article dedupe_key normalized_url search_priority now) (fst st) of
        (claimed, tbl') \<Rightarrow>
          if \<not> claimed then (tbl', (snd st)\<lparr>n_skipped := n_skipped (snd st) + 1\<rparr>)
          else (tbl', (snd st)\<lparr>n_queued := n_queued (snd st) + 1,
                         priority_counts := (priority_counts (snd st))
                           (search_priority := priority_counts (snd st) search_priority + 1)\<rparr>))"

text \<open>One pass of the claiming loop for one match \<open>(item, dedupe_key, normalized_url)\<close>:
  a recent duplicate and a disabled channel are passed over without counting; otherwise
  the INSERT runs.\<close>

definition claim_item ::
  "alert \<Rightarrow> prefs \<Rightarrow> ustr set \<Rightarrow> ustr \<Rightarrow> int \<Rightarrow> (match_row \<times> ustr \<times> ustr) \<Rightarrow>
   delivery list \<times> counters \<Rightarrow> delivery list \<times> counters" where
  "claim_item al pr recent search_priority now row st =
     (case row of (item, dedupe_key, normalized_url) \<Rightarrow>
        if dedupe_key \<in> recent then st
        else if al_channel al \<notin> set (p_channels_enabled pr) then st
        else claim_insert al (m_id item) dedupe_key normalized_url search_priority now st)"

definition dedupe_rows :: "pylib \<Rightarrow> match_row list \<Rightarrow> (match_row \<times> ustr \<times> ustr) list" where
  "dedupe_rows L matches = map (\<lambda>item. (item, compute_dedupe_key L item)) matches"

text \<open>The claiming of one alert in one run: the keys of the matches, the recent-duplicate
  query (only when there are matches), then the loop.\<close>

definition claim_matches ::
  "pylib \<Rightarrow> alert \<Rightarrow> prefs \<Rightarrow> int \<Rightarrow> match_row list \<Rightarrow> delivery list \<times> counters \<Rightarrow>
   delivery list \<times> counters" where
  "claim_matches L al pr now matches st =
     (let rows = dedupe_rows L matches;
          recent = (if rows = [] then {} else recent_keys al pr (map (\<lambda>r. fst (snd r)) rows) now (fst st));
          search_priority = priority_for_search L al (p_priority_categories pr)
      in foldl (\<lambda>s row. claim_item al pr recent search_priority now row s) st rows)"

section \<open>The cursor (public.alert\_delivery\_cursors)\<close>

record cursor_row =
  c_last_ts :: "int option"
  c_updated_at :: "int option"

text \<open>One pass of the scan over the matches: \<open>if item_ts and (max_ts is None or item_ts >
  max_ts): max_ts = item_ts\<close>. A \<open>datetime\<close> is never false, so \<open>if item_ts\<close> tests for
  \<open>None\<close>.\<close>

definition observe_ts :: "int option \<Rightarrow> int option \<Rightarrow> int option" where
  "observe_ts item_ts max_ts =
     (case item_ts of
        None \<Rightarrow> max_ts
      | Some t \<Rightarrow> (case max_ts of None \<Rightarrow> Some t | Some m \<Rightarrow> if t > m then Some t else Some m))"

definition scan_max_ts :: "match_row list \<Rightarrow> int option" where
  "scan_max_ts matches = foldl (\<lambda>max_ts item. observe_ts (m_ts item) max_ts) None matches"

text \<open>\<open>GREATEST\<close> of PostgreSQL passes over NULL arguments.\<close>

definition sql_greatest :: "int option \<Rightarrow> int option \<Rightarrow> int option" where
  "sql_greatest a b =
     (case a of None \<Rightarrow> b | Some x \<Rightarrow> (case b of None \<Rightarrow> Some x | Some y \<Rightarrow> Some (max x y)))"

text \<open>\<open>INSERT ... ON CONFLICT (alert_id) DO UPDATE SET last_ts = GREATEST(old, new)\<close>.\<close>

definition upsert_cursor :: "nat \<Rightarrow> int \<Rightarrow> int \<Rightarrow> (nat \<rightharpoonup> cursor_row) \<Rightarrow> (nat \<rightharpoonup> cursor_row)" where
  "upsert_cursor alert max_ts now cursors =
     (case cursors alert of
        None \<Rightarrow> cursors(alert \<mapsto> \<lparr>c_last_ts = Some max_ts, c_updated_at = Some now\<rparr>)
      | Some row \<Rightarrow> cursors(alert \<mapsto> row\<lparr>c_last_ts := sql_greatest (c_last_ts row) (Some max_ts),
                                           c_updated_at := Some now\<rparr>))"

text \<open>The cursor step of \<open>run_once\<close> for one alert: \<open>if max_ts:\<close> the upsert.\<close>

definition advance_cursor :: "nat \<Rightarrow> match_row list \<Rightarrow> int \<Rightarrow> (nat \<rightharpoonup> cursor_row) \<Rightarrow> (nat \<rightharpoonup> cursor_row)" where
  "advance_cursor alert matches now cursors =
     (case scan_max_ts matches of None \<Rightarrow> cursors | Some max_ts \<Rightarrow> upsert_cursor alert max_ts now cursors)"

text \<open>Reading the cursor of an alert (\<open>SELECT last_ts ... WHERE alert_id = %s\<close>), and the
  timestamps a list of matches carries, in scan order.\<close>

definition cursor_of :: "(nat \<rightharpoonup> cursor_row) \<Rightarrow> nat \<Rightarrow> int option" where
  "cursor_of cursors alert = (case cursors alert of None \<Rightarrow> None | Some row \<Rightarrow> c_last_ts row)"

fun observed :: "match_row list \<Rightarrow> int list" where
  "observed [] = []"
| "observed (item # items) = (case m_ts item of None \<Rightarrow> observed items | Some t \<Rightarrow> t # observed items)"

section \<open>Escalation to the operator\<close>

text \<open>
  The environment variables of the operator channels and the cooldowns, and the state
  file \<open>alerts_admin_notify.json\<close>: \<open>nf_data\<close> is \<open>None\<close> when the file cannot be read or
  parsed (the code then starts from an empty dict), otherwise the stamps by key;
  \<open>nf_writable\<close> says whether the directory and the file can be written (if not,
  \<open>write_text\<close> raises).
\<close>

record admin_env =
  env_admin_telegram_bot_token :: "ustr option"
  env_admin_telegram_chat_id :: "ustr option"
  env_admin_emails :: "ustr option"
  env_admin_email_subject_prefix :: "ustr option"
  env_giveup_cooldown_sec :: int
  env_backlog_cooldown_sec :: int

record notify_file =
  nf_data :: "(ustr \<rightharpoonup> int) option"
  nf_writable :: bool

datatype io_error = OSError

text \<open>The outcome of a send: the pair \<open>(True, "")\<close>, a pair \<open>(False, err)\<close>, or an exception
  (its text \<open>Type:message\<close>). The diagnostic messages are kept as their fields.\<close>

datatype send_result = SendOk | SendFailed ustr | SendRaised ustr

datatype admin_msg =
    GiveupMsg nat ustr ustr ustr int ustr
  | BacklogMsg int int int int int int int

datatype effect =
    WriteStamp ustr int
  | AdminTelegram admin_msg send_result
  | AdminEmail ustr admin_msg send_result
  | LogGiveup nat ustr ustr ustr int ustr
  | ProviderEmail ustr "ustr option" nat "(ustr \<times> match_row list) list" send_result

definition admin_notify_enabled :: "pylib \<Rightarrow> admin_env \<Rightarrow> bool" where
  "admin_notify_enabled L env =
     ((py_strip L (or_empty (env_admin_telegram_bot_token env)) \<noteq> [] \<and>
       py_strip L (or_empty (env_admin_telegram_chat_id env)) \<noteq> []) \<or>
      py_strip L (or_empty (env_admin_emails env)) \<noteq> [])"

definition admin_should_notify_with_cooldown ::
  "ustr \<Rightarrow> int \<Rightarrow> int \<Rightarrow> notify_file \<Rightarrow> io_error + (bool \<times> notify_file \<times> effect list)" where
  "admin_should_notify_with_cooldown key cooldown now nf =
     (let data = (case nf_data nf of None \<Rightarrow> Map.empty | Some m \<Rightarrow> m);
          last = (case data key of None \<Rightarrow> 0 | Some v \<Rightarrow> v)
      in if now - last < cooldown then Inr (False, nf, [])
         else if \<not> nf_writable nf then Inl OSError
         else Inr (True, nf\<lparr>nf_data := Some (data(key \<mapsto> now))\<rparr>, [WriteStamp key now]))"

text \<open>\<open>send_admin_telegram\<close>: without token or chat id no request is made; otherwise the
  request's outcome \<open>http\<close> is the result.\<close>

definition send_admin_telegram :: "pylib \<Rightarrow> admin_env \<Rightarrow> send_result \<Rightarrow> send_result" where
  "send_admin_telegram L env http =
     (if py_strip L (or_empty (env_admin_telegram_bot_token env)) = [] \<or>
         py_strip L (or_empty (env_admin_telegram_chat_id env)) = []
      then SendFailed (str ''not_configured'') else http)"

text \<open>\<open>send_admin_email\<close>: one \<open>send_email_resend\<close> per address; an exception of a send
  ends the loop, a failed send is collected and the result is \<open>send_failed\<close>.\<close>

fun send_each :: "(nat \<Rightarrow> send_result) \<Rightarrow> nat \<Rightarrow> ustr list \<Rightarrow> bool \<Rightarrow> send_result" where
  "send_each http i [] errors = (if errors then SendFailed (str ''send_failed'') else SendOk)"
| "send_each http i (email # emails) errors =
     (case http i of
        SendRaised e \<Rightarrow> SendRaised e
      | SendFailed e \<Rightarrow> send_each http (i + 1) emails True
      | SendOk \<Rightarrow> send_each http (i + 1) emails errors)"

definition send_admin_email :: "pylib \<Rightarrow> admin_env \<Rightarrow> (nat \<Rightarrow> send_result) \<Rightarrow> send_result" where
  "send_admin_email L env http =
     (let emails_raw = py_strip L (or_empty (env_admin_emails env)) in
      if emails_raw = [] then SendFailed (str ''not_configured'')
      else
        (let emails = filter (\<lambda>e. e \<noteq> []) (map (py_strip L) (py_split_on 44 emails_raw)) in
         if emails = [] then SendFailed (str ''not_configured'')
         else send_each http 0 emails False))"

definition full_subject :: "pylib \<Rightarrow> admin_env \<Rightarrow> ustr \<Rightarrow> ustr" where
  "full_subject L env subject =
     py_strip L (py_strip L (or_empty (env_admin_email_subject_prefix env)) @ [32] @ subject)"

text \<open>The text after the first occurrence of \<open>needle\<close> (\<open>s.split(needle, 1)[1]\<close>), if any.\<close>

fun after_first :: "ustr \<Rightarrow> ustr \<Rightarrow> ustr option" where
  "after_first needle [] = (if needle = [] then Some [] else None)"
| "after_first needle (c # cs) =
     (if startswith (c # cs) needle then Some (drop (length needle) (c # cs))
      else after_first needle cs)"

definition classify_giveup_error :: "pylib \<Rightarrow> ustr \<Rightarrow> ustr" where
  "classify_giveup_error L error =
     (if error = [] then str ''unknown''
      else
        (case after_first (str ''send_exception='') error of
           Some tail \<Rightarrow>
             (let head = takeWhile (\<lambda>c. c \<noteq> 58) tail
              in py_strip L (if head = [] then str ''exception'' else head))
         | None \<Rightarrow>
             (let head = takeWhile (\<lambda>c. c \<noteq> 58) error
              in py_strip L (if head = [] then str ''error'' else head))))"

definition giveup_key :: "pylib \<Rightarrow> due_row \<Rightarrow> ustr \<Rightarrow> ustr" where
  "giveup_key L delivery error =
     str ''giveup:'' @
     py_strip L (if dr_channel delivery = [] then str ''unknown'' else dr_channel delivery) @
     [58] @ classify_giveup_error L error"

definition giveup_msg :: "pylib \<Rightarrow> due_row \<Rightarrow> ustr \<Rightarrow> int \<Rightarrow> admin_msg" where
  "giveup_msg L delivery error attempt_count =
     GiveupMsg (dr_alert_id delivery) (dr_user_id delivery) (dr_channel delivery)
       (py_strip L (dr_target delivery)) attempt_count (take 200 error)"

text \<open>\<open>notify_admin_giveup\<close> at wall-clock second \<open>now\<close>; \<open>tg\<close> and \<open>mail\<close> are what the
  two operator channels answer if they are asked. An exception of a send is caught
  there and only printed; an exception of the state file leaves the function.\<close>

definition notify_admin_giveup ::
  "pylib \<Rightarrow> admin_env \<Rightarrow> int \<Rightarrow> send_result \<Rightarrow> (nat \<Rightarrow> send_result) \<Rightarrow> due_row \<Rightarrow> ustr \<Rightarrow> int \<Rightarrow>
   notify_file \<Rightarrow> io_error + (notify_file \<times> effect list)" where
  "notify_admin_giveup L env now tg mail delivery error attempt_count nf =
     (if \<not> admin_notify_enabled L env then Inr (nf, [])
      else
        (case admin_should_notify_with_cooldown (giveup_key L delivery error)
                (env_giveup_cooldown_sec env) now nf of
           Inl e \<Rightarrow> Inl e
         | Inr (go, nf', written) \<Rightarrow>
             if \<not> go then Inr (nf, [])
             else
               (let message = giveup_msg L delivery error attempt_count
                in Inr (nf', written @
                     [AdminTelegram message (send_admin_telegram L env tg),
                      AdminEmail (full_subject L env (str ''ALERTS_DELIVERY_GIVEUP'')) message
                        (send_admin_email L env mail)]))))"


text \<open>\<open>log_delivery_giveup\<close>: the log line, then the notification, whose exception is
  swallowed.\<close>

definition log_delivery_giveup ::
  "pylib \<Rightarrow> admin_env \<Rightarrow> int \<Rightarrow> send_result \<Rightarrow> (nat \<Rightarrow> send_result) \<Rightarrow> due_row \<Rightarrow> ustr \<Rightarrow> int \<Rightarrow>
   notify_file \<Rightarrow> notify_file \<times> effect list" where
  "log_delivery_giveup L env now tg mail delivery error attempt_count nf =
     (let line = LogGiveup (dr_alert_id delivery) (dr_user_id delivery) (dr_channel delivery)
                   (py_strip L (dr_target delivery)) attempt_count (take 200 error)
      in case notify_admin_giveup L env now tg mail delivery error attempt_count nf of
           Inl e \<Rightarrow> (nf, [line])
         | Inr (nf', effects) \<Rightarrow> (nf', line # effects))"

text \<open>\<open>mark_delivery_failed\<close>: the UPDATE at transaction time \<open>now\<close> with the backoff of the
  new attempt number, and at the attempt ceiling the give-up (wall clock \<open>wall\<close>).\<close>

definition mark_delivery_failed ::
  "pylib \<Rightarrow> admin_env \<Rightarrow> int \<Rightarrow> int \<Rightarrow> send_result \<Rightarrow> (nat \<Rightarrow> send_result) \<Rightarrow> due_row \<Rightarrow> ustr \<Rightarrow>
   int \<Rightarrow> int \<Rightarrow> int \<Rightarrow> delivery list \<times> notify_file \<Rightarrow> delivery list \<times> notify_file \<times> effect list" where
  "mark_delivery_failed L env now wall tg mail delivery error retry_base_sec retry_max_sec max_attempts st =
     (let new_attempt = dr_attempt_count delivery + 1;
          backoff = compute_backoff_seconds new_attempt retry_base_sec retry_max_sec;
          tbl = sql_update_where_key (due_key delivery) (set_failed (take 500 error) backoff now) (fst st)
      in if new_attempt \<ge> max_attempts
         then (case log_delivery_giveup L env wall tg mail delivery error new_attempt (snd st) of
                 (nf, effects) \<Rightarrow> (tbl, nf, effects))
         else (tbl, snd st, []))"

section \<open>Dispatch of the email channel\<close>

text \<open>
  What the run meets outside the process, by the number of the step at which it is met:
  the transaction time \<open>now()\<close>, the wall clock, the answer of the mail provider to
  \<open>send_email_resend\<close> and the answers of the operator channels. The state of a run:
  the delivery table, the operator state file, the effects so far, the counters and the
  step counter.
\<close>

record ext =
  x_now :: "nat \<Rightarrow> int"
  x_wall :: "nat \<Rightarrow> int"
  x_resend :: "nat \<Rightarrow> send_result"
  x_admin_telegram :: "nat \<Rightarrow> send_result"
  x_admin_resend :: "nat \<Rightarrow> nat \<Rightarrow> send_result"

record runstate =
  rs_deliveries :: "delivery list"
  rs_notify_file :: notify_file
  rs_trace :: "effect list"
  rs_counters :: counters
  rs_tick :: nat

text \<open>The per-owner cap of a run: \<open>per_user_attempts\<close> counts the deliveries let through.\<close>

fun cap_per_user :: "int \<Rightarrow> (ustr \<Rightarrow> int) \<Rightarrow> due_row list \<Rightarrow> due_row list \<times> (ustr \<Rightarrow> int)" where
  "cap_per_user max_per_user attempts [] = ([], attempts)"
| "cap_per_user max_per_user attempts (d # due) =
     (if attempts (dr_user_id d) \<ge> max_per_user then cap_per_user max_per_user attempts due
      else (case cap_per_user max_per_user (attempts(dr_user_id d := attempts (dr_user_id d) + 1)) due of
              (kept, attempts') \<Rightarrow> (d # kept, attempts')))"

definition priority_routed :: "prefs \<Rightarrow> due_row \<Rightarrow> bool" where
  "priority_routed pr d =
     (case dr_priority d of
        None \<Rightarrow> False
      | Some p \<Rightarrow> p \<in> set (p_immediate_priorities pr) \<or> p \<in> set (p_digest_priorities pr))"

text \<open>One failed delivery and one sent delivery, as the loops of \<open>run_once\<close> record them.\<close>

definition fail_one ::
  "pylib \<Rightarrow> admin_env \<Rightarrow> ext \<Rightarrow> int \<Rightarrow> int \<Rightarrow> int \<Rightarrow> ustr \<Rightarrow> due_row \<Rightarrow> runstate \<Rightarrow> runstate" where
  "fail_one L env E retry_base_sec retry_max_sec max_attempts error d st =
     (let t = rs_tick st in
      case mark_delivery_failed L env (x_now E t) (x_wall E t) (x_admin_telegram E t)
             (x_admin_resend E t) d error retry_base_sec retry_max_sec max_attempts
             (rs_deliveries st, rs_notify_file st) of
        (tbl, nf, effects) \<Rightarrow>
          st\<lparr>rs_deliveries := tbl, rs_notify_file := nf, rs_trace := rs_trace st @ effects,
             rs_counters := (rs_counters st)\<lparr>n_failed := n_failed (rs_counters st) + 1\<rparr>,
             rs_tick := t + 1\<rparr>)"

definition sent_one :: "ext \<Rightarrow> due_row \<Rightarrow> runstate \<Rightarrow> runstate" where
  "sent_one E d st =
     st\<lparr>rs_deliveries := mark_delivery_sent (x_now E (rs_tick st)) d (rs_deliveries st),
        rs_counters := (rs_counters st)\<lparr>n_sent := n_sent (rs_counters st) + 1\<rparr>,
        rs_tick := rs_tick st + 1\<rparr>"

text \<open>The first loop of the email branch: a delivery whose priority is routed nowhere is
  passed over, one whose article is gone fails with \<open>missing_article\<close>, the others are
  collected with their article.\<close>

fun collect_items ::
  "pylib \<Rightarrow> admin_env \<Rightarrow> ext \<Rightarrow> int \<Rightarrow> int \<Rightarrow> int \<Rightarrow> prefs \<Rightarrow> (nat \<Rightarrow> match_row option) \<Rightarrow>
   due_row list \<Rightarrow> runstate \<Rightarrow> (due_row \<times> match_row) list \<times> runstate" where
  "collect_items L env E rb rm ma pr fetch [] st = ([], st)"
| "collect_items L env E rb rm ma pr fetch (d # ds) st =
     (if \<not> priority_routed pr d then collect_items L env E rb rm ma pr fetch ds st
      else
        (case fetch (dr_article_id d) of
           None \<Rightarrow> collect_items L env E rb rm ma pr fetch ds
                     (fail_one L env E rb rm ma (str ''missing_article'') d st)
         | Some item \<Rightarrow>
             (case collect_items L env E rb rm ma pr fetch ds st of
                (rest, st') \<Rightarrow> ((d, item) # rest, st'))))"

text \<open>\<open>for i in range(0, len(xs), n): batch = xs[i : i + n]\<close> for a positive \<open>n\<close>.\<close>

function chunks :: "nat \<Rightarrow> 'a list \<Rightarrow> 'a list list" where
  "chunks n xs = (if n = 0 \<or> xs = [] then [] else take n xs # chunks n (drop n xs))"
  by pat_completeness auto
termination
  by (relation "measure (\<lambda>(n, xs). length xs)") auto

declare chunks.simps [simp del]

text \<open>\<open>grouped.setdefault(key, []).append(item)\<close> on a dict, which keeps insertion order.\<close>

fun group_add :: "ustr \<Rightarrow> match_row \<Rightarrow> (ustr \<times> match_row list) list \<Rightarrow> (ustr \<times> match_row list) list" where
  "group_add key item [] = [(key, [item])]"
| "group_add key item ((k, items) # groups) =
     (if k = key then (k, items @ [item]) # groups else (k, items) # group_add key item groups)"

definition group_batch :: "(due_row \<times> match_row) list \<Rightarrow> (ustr \<times> match_row list) list" where
  "group_batch batch =
     foldl (\<lambda>grouped (d, item).
              group_add (case dr_dedupe_key d of
                           None \<Rightarrow> show_nat (m_id item)
                         | Some k \<Rightarrow> if k = [] then show_nat (m_id item) else k) item grouped)
           [] batch"

text \<open>The pair \<open>(ok, err)\<close> after the \<open>try\<close> around \<open>send_email_resend\<close>.\<close>

definition ok_err :: "send_result \<Rightarrow> bool \<times> ustr" where
  "ok_err r = (case r of SendOk \<Rightarrow> (True, [])
                | SendFailed e \<Rightarrow> (False, e)
                | SendRaised e \<Rightarrow> (False, str ''send_exception='' @ e))"

text \<open>One batch: one digest over the groups of the batch, one send to the target of the
  first delivery, and then every delivery of the batch is marked, sent if the send was
  \<open>ok\<close> and failed with \<open>err\<close> otherwise.\<close>

definition send_batch ::
  "pylib \<Rightarrow> admin_env \<Rightarrow> ext \<Rightarrow> int \<Rightarrow> int \<Rightarrow> int \<Rightarrow> alert \<Rightarrow> (due_row \<times> match_row) list \<Rightarrow>
   runstate \<Rightarrow> runstate" where
  "send_batch L env E rb rm ma al batch st =
     (case batch of
        [] \<Rightarrow> st
      | (d0, item0) # _ \<Rightarrow>
          (let grouped = group_batch batch;
               answer = x_resend E (rs_tick st);
               st1 = st\<lparr>rs_trace := rs_trace st @
                            [ProviderEmail (dr_target d0) (al_name al) (length grouped) grouped answer],
                        rs_tick := rs_tick st + 1\<rparr>
           in case ok_err answer of
                (ok, err) \<Rightarrow>
                  if ok then foldl (\<lambda>s (d, item). sent_one E d s) st1 batch
                  else foldl (\<lambda>s (d, item). fail_one L env E rb rm ma err d s) st1 batch))"

text \<open>The email branch for one alert: \<open>range\<close> with step 0 raises, with a negative step
  it is empty.\<close>

definition dispatch_email ::
  "pylib \<Rightarrow> admin_env \<Rightarrow> ext \<Rightarrow> int \<Rightarrow> int \<Rightarrow> int \<Rightarrow> int \<Rightarrow> alert \<Rightarrow> prefs \<Rightarrow>
   (nat \<Rightarrow> match_row option) \<Rightarrow> due_row list \<Rightarrow> runstate \<Rightarrow> py_error + runstate" where
  "dispatch_email L env E rb rm ma max_items_per_email al pr fetch filtered_due st =
     (case collect_items L env E rb rm ma pr fetch filtered_due st of
        (deliveries_with_items, st1) \<Rightarrow>
          if max_items_per_email = 0 then Inl ValueError
          else if max_items_per_email < 0 then Inr st1
          else Inr (foldl (\<lambda>s batch. send_batch L env E rb rm ma al batch s) st1
                      (chunks (nat max_items_per_email) deliveries_with_items)))"

section \<open>What writes the delivery table\<close>

text \<open>
  The statements of the repository that write \<open>alert_deliveries\<close>: the INSERT of a claim
  and the UPDATEs of \<open>mark_delivery_sent\<close> and \<open>mark_delivery_failed\<close>. \<open>table_step\<close> is one
  of them, with whatever arguments; a run, and a sequence of runs, is a chain of steps.
\<close>

inductive table_step :: "delivery list \<Rightarrow> delivery list \<Rightarrow> bool" where
  step_claim: "table_step tbl (fst (claim_insert al article dedupe_key normalized_url search_priority now (tbl, cnt)))"
| step_sent: "table_step tbl (mark_delivery_sent now d tbl)"
| step_failed: "table_step tbl
     (fst (mark_delivery_failed L env now wall tg mail d error retry_base_sec retry_max_sec max_attempts (tbl, nf)))"

definition rows_of :: "dkey \<Rightarrow> delivery list \<Rightarrow> delivery list" where
  "rows_of k tbl = filter (\<lambda>d. key_of d = k) tbl"

definition provider_sends :: "effect list \<Rightarrow> effect list" where
  "provider_sends effects =
     filter (\<lambda>e. case e of ProviderEmail target name n groups answer \<Rightarrow> True | _ \<Rightarrow> False) effects"



definition giveup_lines :: "effect list \<Rightarrow> effect list" where
  "giveup_lines effects =
     filter (\<lambda>e. case e of LogGiveup a u c t n err \<Rightarrow> True | _ \<Rightarrow> False) effects"



section \<open>The Matcher (pick\_search\_sql and the query it writes)\<close>

text \<open>
  A row of \<open>public.articles\<close> and of \<open>public.sources\<close>; \<open>None\<close> is NULL. The optional
  columns are fields of every row, and the flags of \<open>schema\<close> (the results of
  \<open>has_column\<close> and \<open>has_table\<close>) say which of them the catalog has: the query never reads
  a column whose flag is off. \<open>a_source_id\<close> and \<open>s_id\<close> are the ids cast to text.
\<close>

record article =
  a_id :: nat
  a_title :: "ustr option"
  a_url :: "ustr option"
  a_summary :: "ustr option"
  a_content_clean :: "ustr option"
  a_content :: "ustr option"
  a_translated_content :: "ustr option"
  a_category_guess :: "ustr option"
  a_category :: "ustr option"
  a_source_id :: "ustr option"
  a_source :: "ustr option"
  a_source_name :: "ustr option"
  a_published_at :: "int option"
  a_created_at :: "int option"

record source =
  s_id :: "ustr option"
  s_name :: "ustr option"

record schema =
  has_published_at :: bool
  has_search_tsv :: bool
  has_category_guess :: bool
  has_category :: bool
  has_source_id :: bool
  has_source :: bool
  has_source_name :: bool
  has_summary :: bool
  has_content_clean :: bool
  has_content :: bool
  has_translated_content :: bool
  has_sources_table :: bool

text \<open>
  What PostgreSQL decides and the repository does not: the lower-casing of \<open>ILIKE\<close> for
  characters from 128 on, and the full-text search on \<open>search_tsv\<close>, that is whether
  \<open>a.search_tsv @@ websearch_to_tsquery('english', q)\<close> holds for an article (NULL when the
  column is NULL) and the rank \<open>ts_rank_cd\<close> gives it (a \<open>float4\<close>, of which only the order
  counts; an integer here).
\<close>

record pgsql =
  pg_tolower :: "nat \<Rightarrow> nat"
  fts_match :: "article \<Rightarrow> ustr \<Rightarrow> bool option"
  fts_rank :: "article \<Rightarrow> ustr \<Rightarrow> int"

definition pg_lower :: "pgsql \<Rightarrow> ustr \<Rightarrow> ustr" where
  "pg_lower P s = map (\<lambda>c. if c < 128 then (if 65 \<le> c \<and> c \<le> 90 then c + 32 else c) else pg_tolower P c) s"

text \<open>\<open>LIKE\<close>: \<open>%\<close> stands for any text, \<open>_\<close> for one character, and a backslash takes the
  next character literally. (A pattern that ends in a lone backslash is an error in
  PostgreSQL; the patterns \<open>%...%\<close> built here never do.)\<close>

fun like_match :: "ustr \<Rightarrow> ustr \<Rightarrow> bool" where
  "like_match [] t = (t = [])"
| "like_match (p # ps) t =
     (if p = 37 then like_match ps t \<or> (case t of [] \<Rightarrow> False | c # t' \<Rightarrow> like_match (p # ps) t')
      else if p = 95 then (case t of [] \<Rightarrow> False | c # t' \<Rightarrow> like_match ps t')
      else if p = 92 then
        (case ps of
           [] \<Rightarrow> False
         | q # qs \<Rightarrow> (case t of [] \<Rightarrow> False | c # t' \<Rightarrow> c = q \<and> like_match qs t'))
      else (case t of [] \<Rightarrow> False | c # t' \<Rightarrow> c = p \<and> like_match ps t'))"

text \<open>SQL's three-valued logic: \<open>None\<close> is NULL (unknown).\<close>

definition sql_or :: "bool option \<Rightarrow> bool option \<Rightarrow> bool option" where
  "sql_or a b =
     (if a = Some True \<or> b = Some True then Some True
      else if a = None \<or> b = None then None else Some False)"

definition sql_and :: "bool option \<Rightarrow> bool option \<Rightarrow> bool option" where
  "sql_and a b =
     (if a = Some False \<or> b = Some False then Some False
      else if a = None \<or> b = None then None else Some True)"

definition sql_ilike :: "pgsql \<Rightarrow> ustr option \<Rightarrow> ustr option \<Rightarrow> bool option" where
  "sql_ilike P txt pat =
     (case txt of
        None \<Rightarrow> None
      | Some t \<Rightarrow> (case pat of None \<Rightarrow> None | Some p \<Rightarrow> Some (like_match (pg_lower P p) (pg_lower P t))))"

definition sql_eq :: "ustr option \<Rightarrow> ustr option \<Rightarrow> bool option" where
  "sql_eq a b = (case a of None \<Rightarrow> None | Some x \<Rightarrow> (case b of None \<Rightarrow> None | Some y \<Rightarrow> Some (x = y)))"

definition sql_ge :: "int option \<Rightarrow> int option \<Rightarrow> bool option" where
  "sql_ge a b = (case a of None \<Rightarrow> None | Some x \<Rightarrow> (case b of None \<Rightarrow> None | Some y \<Rightarrow> Some (x \<ge> y)))"

text \<open>The text columns the query may name, and their value in a row of
  \<open>articles a LEFT JOIN sources s\<close> (without a source row every \<open>s\<close> column is NULL).\<close>

datatype text_col =
    Summary | ContentClean | Content | TranslatedContent
  | SourceName | Source | SourceIdText | SName | CategoryGuess | Category

fun col_value :: "text_col \<Rightarrow> article \<times> source option \<Rightarrow> ustr option" where
  "col_value Summary r = a_summary (fst r)"
| "col_value ContentClean r = a_content_clean (fst r)"
| "col_value Content r = a_content (fst r)"
| "col_value TranslatedContent r = a_translated_content (fst r)"
| "col_value SourceName r = a_source_name (fst r)"
| "col_value Source r = a_source (fst r)"
| "col_value SourceIdText r = a_source_id (fst r)"
| "col_value SName r = (case snd r of None \<Rightarrow> None | Some s \<Rightarrow> s_name s)"
| "col_value CategoryGuess r = a_category_guess (fst r)"
| "col_value Category r = a_category (fst r)"

text \<open>\<open>pick_article_ts_expr\<close>: \<open>COALESCE(a.published_at, a.created_at)\<close> or \<open>a.created_at\<close>.\<close>

datatype ts_expr = PublishedOrCreated | Created

definition pick_article_ts_expr :: "bool \<Rightarrow> ts_expr" where
  "pick_article_ts_expr has_published = (if has_published then PublishedOrCreated else Created)"

fun ts_value :: "ts_expr \<Rightarrow> article \<Rightarrow> int option" where
  "ts_value PublishedOrCreated a = (case a_published_at a of None \<Rightarrow> a_created_at a | Some t \<Rightarrow> Some t)"
| "ts_value Created a = a_created_at a"

text \<open>
  The query text \<open>pick_search_sql\<close> returns, by its variable parts: the condition on the
  query string (full-text match, an OR of \<open>ILIKE\<close>s, or \<open>TRUE\<close>), the ORDER BY, the category
  column compared, the columns of the source filter, whether \<open>sources\<close> is joined, and
  the selected expressions.
\<close>

datatype where_q = WhereFts | WhereIlike "text_col list" | WhereTrue

datatype order_by = OrderRankThenTs | OrderTs

record search_sql =
  q_ts_expr :: ts_expr
  q_where_q :: where_q
  q_order :: order_by
  q_category_expr :: "text_col option"
  q_source_filters :: "text_col list"
  q_join_sources :: bool
  q_summary_expr :: "text_col option"
  q_category_select_expr :: "text_col option"
  q_source_name_expr :: "text_col option"

definition search_cols :: "schema \<Rightarrow> text_col list" where
  "search_cols sc =
     (if has_summary sc then [Summary] else []) @
     (if has_content_clean sc then [ContentClean] else []) @
     (if has_content sc then [Content] else []) @
     (if has_translated_content sc then [TranslatedContent] else [])"

definition source_filters :: "schema \<Rightarrow> text_col list" where
  "source_filters sc =
     (if has_source_name sc then [SourceName] else []) @
     (if has_source sc then [Source] else []) @
     (if has_source_id sc then [SourceIdText] else []) @
     (if has_sources_table sc \<and> has_source_id sc then [SName] else [])"

definition category_expr :: "schema \<Rightarrow> text_col option" where
  "category_expr sc =
     (if has_category_guess sc then Some CategoryGuess
      else if has_category sc then Some Category else None)"

definition pick_search_sql :: "schema \<Rightarrow> ts_expr \<Rightarrow> search_sql" where
  "pick_search_sql sc ts =
     \<lparr>q_ts_expr = ts,
      q_where_q = (if has_search_tsv sc then WhereFts
                   else if search_cols sc \<noteq> [] then WhereIlike (search_cols sc) else WhereTrue),
      q_order = (if has_search_tsv sc then OrderRankThenTs else OrderTs),
      q_category_expr = category_expr sc,
      q_source_filters = source_filters sc,
      q_join_sources = (has_sources_table sc \<and> has_source_id sc),
      q_summary_expr = (if has_summary sc then Some Summary else None),
      q_category_select_expr = category_expr sc,
      q_source_name_expr = (if has_sources_table sc \<and> has_source_id sc then Some SName else None)\<rparr>"

text \<open>The parameters \<open>run_once\<close> binds for an alert: the stripped query and its pattern,
  the resume point (cursor minus the overlap) and the result ceiling.\<close>

record search_params =
  sp_q :: ustr
  sp_q_like :: ustr
  sp_q_present :: bool
  sp_days :: int
  sp_category :: "ustr option"
  sp_source :: "ustr option"
  sp_source_like :: "ustr option"
  sp_limit :: int
  sp_start_ts :: "int option"

definition bind_params :: "pylib \<Rightarrow> alert \<Rightarrow> int option \<Rightarrow> int \<Rightarrow> int \<Rightarrow> search_params" where
  "bind_params L al cursor_last_ts cursor_overlap_sec match_limit =
     (let q = py_strip L (al_query al) in
      \<lparr>sp_q = q,
       sp_q_like = [37] @ q @ [37],
       sp_q_present = (q \<noteq> []),
       sp_days = (if al_days al = 0 then 7 else al_days al),
       sp_category = al_category al,
       sp_source = al_source al,
       sp_source_like = (case al_source al of
                           None \<Rightarrow> None
                         | Some s \<Rightarrow> if s = [] then None else Some ([37] @ s @ [37])),
       sp_limit = match_limit,
       sp_start_ts = (case cursor_last_ts of
                        None \<Rightarrow> None
                      | Some last_ts \<Rightarrow> Some (last_ts - usec cursor_overlap_sec))\<rparr>)"

text \<open>\<open>LEFT JOIN public.sources s ON s.id::text = a.source_id::text\<close>.\<close>

definition left_join_sources :: "bool \<Rightarrow> article list \<Rightarrow> source list \<Rightarrow> (article \<times> source option) list" where
  "left_join_sources joined articles sources =
     (if joined then
        concat (map (\<lambda>a.
          (case filter (\<lambda>s. sql_eq (s_id s) (a_source_id a) = Some True) sources of
             [] \<Rightarrow> [(a, None)]
           | ms \<Rightarrow> map (\<lambda>s. (a, Some s)) ms)) articles)
      else map (\<lambda>a. (a, None)) articles)"

fun sql_or_list :: "bool option list \<Rightarrow> bool option" where
  "sql_or_list [] = Some False"
| "sql_or_list (b # bs) = sql_or b (sql_or_list bs)"

definition where_q_value :: "pgsql \<Rightarrow> where_q \<Rightarrow> search_params \<Rightarrow> article \<times> source option \<Rightarrow> bool option" where
  "where_q_value P w ps r =
     (case w of
        WhereFts \<Rightarrow> fts_match P (fst r) (sp_q ps)
      | WhereIlike cols \<Rightarrow> sql_or_list (map (\<lambda>c. sql_ilike P (col_value c r) (Some (sp_q_like ps))) cols)
      | WhereTrue \<Rightarrow> Some True)"

definition category_clause :: "search_sql \<Rightarrow> search_params \<Rightarrow> article \<times> source option \<Rightarrow> bool option" where
  "category_clause sql ps r =
     (case q_category_expr sql of
        Some col \<Rightarrow> sql_or (Some (sp_category ps = None)) (sql_eq (col_value col r) (sp_category ps))
      | None \<Rightarrow> sql_or (Some (sp_category ps = None)) (Some True))"

definition source_clause :: "pgsql \<Rightarrow> search_sql \<Rightarrow> search_params \<Rightarrow> article \<times> source option \<Rightarrow> bool option" where
  "source_clause P sql ps r =
     sql_or (Some (sp_source ps = None))
       (if q_source_filters sql \<noteq> []
        then sql_or_list (map (\<lambda>c. sql_ilike P (col_value c r) (sp_source_like ps)) (q_source_filters sql))
        else Some True)"

text \<open>The WHERE clause at transaction time \<open>now\<close>: a row is selected when the whole
  condition is true (not false, not NULL).\<close>

definition where_clause :: "pgsql \<Rightarrow> search_sql \<Rightarrow> search_params \<Rightarrow> int \<Rightarrow> article \<times> source option \<Rightarrow> bool option" where
  "where_clause P sql ps now r =
     sql_and
       (sql_ge (ts_value (q_ts_expr sql) (fst r))
          (case sp_start_ts ps of Some s \<Rightarrow> Some s | None \<Rightarrow> Some (now - usec (sp_days ps * 86400))))
       (sql_and (sql_or (Some (sp_q_present ps = False)) (where_q_value P (q_where_q sql) ps r))
          (sql_and (category_clause sql ps r) (source_clause P sql ps r)))"

text \<open>ORDER BY ... DESC: the rows by descending key (rows with equal keys in the order
  of the table scan; SQL leaves their order open).\<close>

definition order_desc :: "('a \<Rightarrow> 'k::linorder) \<Rightarrow> 'a list \<Rightarrow> 'a list" where
  "order_desc key rows = rev (sort_key key (rev rows))"

definition row_ts :: "search_sql \<Rightarrow> article \<times> source option \<Rightarrow> int" where
  "row_ts sql r = the (ts_value (q_ts_expr sql) (fst r))"

definition order_rows :: "pgsql \<Rightarrow> search_sql \<Rightarrow> search_params \<Rightarrow> (article \<times> source option) list \<Rightarrow> (article \<times> source option) list" where
  "order_rows P sql ps rows =
     (case q_order sql of
        OrderRankThenTs \<Rightarrow> order_desc (\<lambda>r. (fts_rank P (fst r) (sp_q ps), row_ts sql r)) rows
      | OrderTs \<Rightarrow> order_desc (row_ts sql) rows)"

definition select_row :: "search_sql \<Rightarrow> article \<times> source option \<Rightarrow> match_row" where
  "select_row sql r =
     \<lparr>m_id = a_id (fst r), m_title = a_title (fst r), m_url = a_url (fst r),
      m_summary = (case q_summary_expr sql of None \<Rightarrow> None | Some c \<Rightarrow> col_value c r),
      m_category_guess = (case q_category_select_expr sql of None \<Rightarrow> None | Some c \<Rightarrow> col_value c r),
      m_ts = ts_value (q_ts_expr sql) (fst r),
      m_source_name = (case q_source_name_expr sql of None \<Rightarrow> None | Some c \<Rightarrow> col_value c r)\<rparr>"

text \<open>The rows the query selects, in its order and cut at its LIMIT (a negative LIMIT is
  an error of the database), and the dicts \<open>cur.fetchall()\<close> returns for them.\<close>

definition search_rows ::
  "pgsql \<Rightarrow> search_sql \<Rightarrow> search_params \<Rightarrow> int \<Rightarrow> article list \<Rightarrow> source list \<Rightarrow>
   sql_error + (article \<times> source option) list" where
  "search_rows P sql ps now articles sources =
     (if sp_limit ps < 0 then Inl NegativeLimit
      else Inr (take (nat (sp_limit ps))
             (order_rows P sql ps
               (filter (\<lambda>r. where_clause P sql ps now r = Some True)
                  (left_join_sources (q_join_sources sql) articles sources)))))"

definition run_search ::
  "pgsql \<Rightarrow> search_sql \<Rightarrow> search_params \<Rightarrow> int \<Rightarrow> article list \<Rightarrow> source list \<Rightarrow>
   sql_error + match_row list" where
  "run_search P sql ps now articles sources =
     (case search_rows P sql ps now articles sources of
        Inl e \<Rightarrow> Inl e
      | Inr rows \<Rightarrow> Inr (map (select_row sql) rows))"

text \<open>The Matcher of one alert in a run: the flags of the catalog, the query written for
  them, the parameters of the alert.\<close>

definition matcher ::
  "pylib \<Rightarrow> pgsql \<Rightarrow> schema \<Rightarrow> alert \<Rightarrow> int option \<Rightarrow> int \<Rightarrow> int \<Rightarrow> int \<Rightarrow> article list \<Rightarrow> source list \<Rightarrow>
   sql_error + match_row list" where
  "matcher L P sc al cursor_last_ts cursor_overlap_sec match_limit now articles sources =
     run_search P (pick_search_sql sc (pick_article_ts_expr (has_published_at sc)))
       (bind_params L al cursor_last_ts cursor_overlap_sec match_limit) now articles sources"

section \<open>The claims' own words\<close>







text \<open>The key triple of a claim. A recent duplicate: the owner has, on the channel, a
  delivery with the dedupe key that was created inside the dedupe window and is PENDING,
  FAILED or SENT. The claim of a match is passed over, before the INSERT and without a
  count, when its dedupe key is a recent duplicate or the channel is not enabled for the
  owner. \<open>reaches_insert\<close> is the same condition on a row of the claiming loop, for the
  set of recent keys the run has read.\<close>

definition triple :: "alert \<Rightarrow> match_row \<Rightarrow> dkey" where
  "triple al m = (al_alert_id al, m_id m, al_channel al)"

definition recent_duplicate :: "alert \<Rightarrow> prefs \<Rightarrow> int \<Rightarrow> delivery list \<Rightarrow> ustr \<Rightarrow> bool" where
  "recent_duplicate al pr now tbl key =
     (\<exists>d \<in> set tbl.
        d_user_id d = al_user_id al \<and> d_channel d = al_channel al \<and> d_dedupe_key d = Some key \<and>
        (case d_created_at d of None \<Rightarrow> False | Some c \<Rightarrow> now - usec (p_dedupe_window_sec pr) \<le> c) \<and>
        (d_status d = PENDING \<or> d_status d = FAILED \<or> d_status d = SENT))"

definition passed_over :: "pylib \<Rightarrow> alert \<Rightarrow> prefs \<Rightarrow> int \<Rightarrow> delivery list \<Rightarrow> match_row \<Rightarrow> bool" where
  "passed_over L al pr now tbl m =
     (recent_duplicate al pr now tbl (fst (compute_dedupe_key L m)) \<or>
      al_channel al \<notin> set (p_channels_enabled pr))"

definition reaches_insert :: "alert \<Rightarrow> prefs \<Rightarrow> ustr set \<Rightarrow> match_row \<times> ustr \<times> ustr \<Rightarrow> bool" where
  "reaches_insert al pr R row = (fst (snd row) \<notin> R \<and> al_channel al \<in> set (p_channels_enabled pr))"




text \<open>A marking of the rows with the given keys: every row keeps its key, outside the
  keys every row is as before, and every row with one of the keys is SENT with the error
  cleared (\<open>ok\<close>), or FAILED with the error text \<open>err\<close> cut at 500 characters.\<close>

definition marked :: "bool \<Rightarrow> ustr \<Rightarrow> dkey set \<Rightarrow> delivery list \<Rightarrow> delivery list \<Rightarrow> bool" where
  "marked ok err keys tbl tbl' =
     (length tbl' = length tbl \<and>
      (\<forall>i < length tbl.
         key_of (tbl' ! i) = key_of (tbl ! i) \<and>
         (if key_of (tbl ! i) \<in> keys
          then d_status (tbl' ! i) = (if ok then SENT else FAILED) \<and>
               d_error (tbl' ! i) = (if ok then None else Some (take 500 err))
          else tbl' ! i = tbl ! i)))"

text \<open>The one outcome of a batch, by what the provider did with its one send: the call
  succeeded, and every delivery of the batch is SENT; the call reported a failure, and
  every delivery of the batch is FAILED with the reported error; the call raised, and
  every delivery of the batch is FAILED with the text of the exception after
  \<open>send_exception=\<close>. The recorded error is cut at 500 characters, and the rows of
  other deliveries are as before.\<close>

definition batch_marked ::
  "send_result \<Rightarrow> (due_row \<times> match_row) list \<Rightarrow> delivery list \<Rightarrow> delivery list \<Rightarrow> bool" where
  "batch_marked answer batch tbl tbl' =
     (length tbl' = length tbl \<and>
      (\<forall>i < length tbl.
         key_of (tbl' ! i) = key_of (tbl ! i) \<and>
         (if key_of (tbl ! i) \<in> due_key ` fst ` set batch
          then (case answer of
                  SendOk \<Rightarrow> d_status (tbl' ! i) = SENT \<and> d_error (tbl' ! i) = None
                | SendFailed e \<Rightarrow>
                    d_status (tbl' ! i) = FAILED \<and> d_error (tbl' ! i) = Some (take 500 e)
                | SendRaised e \<Rightarrow>
                    d_status (tbl' ! i) = FAILED \<and>
                    d_error (tbl' ! i) = Some (take 500 (str ''send_exception='' @ e)))
          else tbl' ! i = tbl ! i)))"
section \<open>Example data\<close>

text \<open>A small catalog, an alert and an engine for the worked examples: two articles about
  oil (the older one ranked higher by the full-text search) and a weather report.\<close>

definition ex_article :: "nat \<Rightarrow> string \<Rightarrow> string \<Rightarrow> int \<Rightarrow> article" where
  "ex_article i title summary ts =
     \<lparr>a_id = i, a_title = Some (str title), a_url = None, a_summary = Some (str summary),
      a_content_clean = None, a_content = None, a_translated_content = None,
      a_category_guess = Some (str ''energy''), a_category = None, a_source_id = None,
      a_source = None, a_source_name = None, a_published_at = None, a_created_at = Some ts\<rparr>"

definition ex_match :: "nat \<Rightarrow> string \<Rightarrow> string option \<Rightarrow> int \<Rightarrow> match_row" where
  "ex_match i title summary ts =
     \<lparr>m_id = i, m_title = Some (str title), m_url = None, m_summary = map_option str summary,
      m_category_guess = Some (str ''energy''), m_ts = Some ts, m_source_name = None\<rparr>"

definition ex_schema :: "bool \<Rightarrow> bool \<Rightarrow> schema" where
  "ex_schema tsv summary =
     \<lparr>has_published_at = False, has_search_tsv = tsv, has_category_guess = True,
      has_category = False, has_source_id = False, has_source = False, has_source_name = False,
      has_summary = summary, has_content_clean = False, has_content = False,
      has_translated_content = False, has_sources_table = False\<rparr>"

definition ex_alert :: "string \<Rightarrow> alert" where
  "ex_alert query =
     \<lparr>al_alert_id = 1, al_user_id = str ''u1'', al_channel = str ''email'',
      al_target = str ''a@b.c'', al_name = Some (str ''Oil''), al_query = str query, al_days = 7,
      al_category = None, al_source = None\<rparr>"

definition ex_pg :: pgsql where
  "ex_pg = \<lparr>pg_tolower = (\<lambda>c. c), fts_match = (\<lambda>a q. Some True),
            fts_rank = (\<lambda>a q. if a_id a = 1 then 5 else 1)\<rparr>"

text \<open>An operator environment with the Telegram channel configured and one with no
  operator channel (the state of a deployment that sets none of the \<open>ALERTS_ADMIN_*\<close>
  variables), a state file not yet written, a fresh table with one claimed delivery, the
  due row read from it, and counters at zero.\<close>

definition ex_env :: "bool \<Rightarrow> admin_env" where
  "ex_env configured =
     \<lparr>env_admin_telegram_bot_token = (if configured then Some (str ''token'') else None),
      env_admin_telegram_chat_id = (if configured then Some (str ''42'') else None),
      env_admin_emails = None, env_admin_email_subject_prefix = None,
      env_giveup_cooldown_sec = 3600, env_backlog_cooldown_sec = 1800\<rparr>"

definition ex_file :: notify_file where
  "ex_file = \<lparr>nf_data = None, nf_writable = True\<rparr>"

definition ex_table :: "delivery list" where
  "ex_table = [new_delivery (ex_alert ''oil'') 7 (str ''k'') [] (str ''P0'') 100]"

definition ex_due :: "nat \<Rightarrow> int \<Rightarrow> due_row" where
  "ex_due article attempts =
     \<lparr>dr_alert_id = 1, dr_user_id = str ''u1'', dr_article_id = article, dr_channel = str ''email'',
      dr_attempt_count = attempts, dr_target = str ''a@b.c'', dr_dedupe_key = Some (str ''k''),
      dr_priority = Some (str ''P0'')\<rparr>"

definition ex_counters :: counters where
  "ex_counters = \<lparr>n_sent = 0, n_failed = 0, n_queued = 0, n_skipped = 0, priority_counts = (\<lambda>p. 0)\<rparr>"

text \<open>A run with two claimed deliveries of one alert, both due, the default preferences,
  a catalog that has every article, and an outside world in which the mail provider
  gives the same answer to every send.\<close>

definition ex_ext :: "send_result \<Rightarrow> ext" where
  "ex_ext answer =
     \<lparr>x_now = (\<lambda>n. 1000 + int n), x_wall = (\<lambda>n. 1700000000 + int n), x_resend = (\<lambda>n. answer),
      x_admin_telegram = (\<lambda>n. SendOk), x_admin_resend = (\<lambda>n i. SendOk)\<rparr>"

definition ex_prefs :: prefs where
  "ex_prefs =
     \<lparr>p_dedupe_window_sec = 21600, p_immediate_priorities = [str ''P0''],
      p_digest_priorities = [str ''P1'', str ''P2''], p_priority_categories = [],
      p_channels_enabled = [str ''email'']\<rparr>"

definition ex_state :: runstate where
  "ex_state =
     \<lparr>rs_deliveries = [new_delivery (ex_alert ''oil'') 7 (str ''k7'') [] (str ''P0'') 100,
                       new_delivery (ex_alert ''oil'') 8 (str ''k8'') [] (str ''P0'') 100],
      rs_notify_file = ex_file, rs_trace = [], rs_counters = ex_counters, rs_tick = 0\<rparr>"

definition ex_fetch :: "nat \<Rightarrow> match_row option" where
  "ex_fetch i = Some (ex_match i ''Oil'' None 100)"

text \<open>The claiming step of a run that finds one article about oil, from an empty table.\<close>

definition ex_claimed :: "int \<Rightarrow> delivery list \<times> counters" where
  "ex_claimed now = claim_matches ascii_lib (ex_alert ''oil'') ex_prefs now [ex_match 7 ''Oil'' None 100]
                      ([], ex_counters)"

section \<open>Properties\<close>

text \<open>The definitions unfolded when an example is evaluated.\<close>

lemmas ex_defs = ex_article_def ex_match_def ex_schema_def ex_alert_def ex_pg_def
lemmas matcher_defs = matcher_def run_search_def search_rows_def pick_search_sql_def
  pick_article_ts_expr_def bind_params_def search_cols_def source_filters_def category_expr_def
  left_join_sources_def where_clause_def where_q_value_def category_clause_def source_clause_def
  sql_and_def sql_or_def sql_ge_def sql_eq_def sql_ilike_def pg_lower_def order_rows_def
  order_desc_def row_ts_def select_row_def usec_def
lemmas strip_defs = py_strip_def py_rstrip_def py_lstrip_def py_isspace_def
lemmas table_defs = new_delivery_def key_of_def due_key_def to_due_row_def rows_of_def
  sql_update_where_key_def set_failed_def set_sent_def mark_delivery_sent_def
  compute_backoff_seconds_def sql_insert_delivery_def claim_insert_def is_due_def usec_def
lemmas ex2_defs = ex_env_def ex_file_def ex_table_def ex_due_def ex_counters_def ex_alert_def
lemmas dispatch_defs = dispatch_email_def send_batch_def fail_one_def sent_one_def ok_err_def
  priority_routed_def group_batch_def
lemmas ex3_defs = ex_ext_def ex_prefs_def ex_state_def ex_fetch_def

subsection \<open>Marking deliveries\<close>

lemma sql_update_where_key_length: "length (sql_update_where_key k f tbl) = length tbl"
  by (simp add: sql_update_where_key_def)

lemma sql_update_where_key_nth:
  "i < length tbl \<Longrightarrow>
   sql_update_where_key k f tbl ! i = (if key_of (tbl ! i) = k then f (tbl ! i) else tbl ! i)"
  by (simp add: sql_update_where_key_def)

text \<open>
  C10. Marking a Delivery SENT rewrites, in every row with the delivery's key, the status
  (SENT), the delivered timestamp (now) and the error (cleared), and beyond these it adds
  one to attempt\_count and sets last\_attempt\_at and next\_attempt\_at to now; the other
  columns of the row, every other row and the number of rows are unchanged.
\<close>

theorem mark_delivery_sent_effect:
  "length (mark_delivery_sent now dl tbl) = length tbl \<and>
   (\<forall>i < length tbl.
      let old = tbl ! i; new = mark_delivery_sent now dl tbl ! i in
      if key_of old = due_key dl
      then d_status new = SENT \<and> d_delivered_at new = Some now \<and> d_error new = None \<and>
           d_attempt_count new = d_attempt_count old + 1 \<and>
           d_last_attempt_at new = Some now \<and> d_next_attempt_at new = Some now \<and>
           new = old\<lparr>d_status := SENT, d_error := None, d_delivered_at := Some now,
                     d_attempt_count := d_attempt_count old + 1,
                     d_last_attempt_at := Some now, d_next_attempt_at := Some now\<rparr>
      else new = old)"
  by (simp add: mark_delivery_sent_def sql_update_where_key_length sql_update_where_key_nth
      set_sent_def Let_def)

theorem mark_delivery_sent_effect_witness:
  "(0::nat) < length [\<lparr>d_alert_id = 1, d_user_id = str ''u1'', d_article_id = 7, d_channel = str ''email'',
        d_status = FAILED, d_attempt_count = 2, d_last_attempt_at = Some 50,
        d_next_attempt_at = Some 90, d_queued_at = Some 10, d_dedupe_key = Some (str ''k''),
        d_dedupe_group = Some (str ''k''), d_normalized_url = None, d_priority = Some (str ''P0''),
        d_created_at = Some 10, d_error = Some (str ''resend_status=500''), d_delivered_at = None\<rparr>] \<and>
   mark_delivery_sent 100
     \<lparr>dr_alert_id = 1, dr_user_id = str ''u1'', dr_article_id = 7, dr_channel = str ''email'',
      dr_attempt_count = 2, dr_target = str ''a@b.c'', dr_dedupe_key = Some (str ''k''),
      dr_priority = Some (str ''P0'')\<rparr>
     [\<lparr>d_alert_id = 1, d_user_id = str ''u1'', d_article_id = 7, d_channel = str ''email'',
        d_status = FAILED, d_attempt_count = 2, d_last_attempt_at = Some 50,
        d_next_attempt_at = Some 90, d_queued_at = Some 10, d_dedupe_key = Some (str ''k''),
        d_dedupe_group = Some (str ''k''), d_normalized_url = None, d_priority = Some (str ''P0''),
        d_created_at = Some 10, d_error = Some (str ''resend_status=500''), d_delivered_at = None\<rparr>] ! 0
   = \<lparr>d_alert_id = 1, d_user_id = str ''u1'', d_article_id = 7, d_channel = str ''email'',
        d_status = SENT, d_attempt_count = 3, d_last_attempt_at = Some 100,
        d_next_attempt_at = Some 100, d_queued_at = Some 10, d_dedupe_key = Some (str ''k''),
        d_dedupe_group = Some (str ''k''), d_normalized_url = None, d_priority = Some (str ''P0''),
        d_created_at = Some 10, d_error = None, d_delivered_at = Some 100\<rparr>"
  using mark_delivery_sent_effect [of 100
     "\<lparr>dr_alert_id = 1, dr_user_id = str ''u1'', dr_article_id = 7, dr_channel = str ''email'',
      dr_attempt_count = 2, dr_target = str ''a@b.c'', dr_dedupe_key = Some (str ''k''),
      dr_priority = Some (str ''P0'')\<rparr>"
     "[\<lparr>d_alert_id = 1, d_user_id = str ''u1'', d_article_id = 7, d_channel = str ''email'',
        d_status = FAILED, d_attempt_count = 2, d_last_attempt_at = Some 50,
        d_next_attempt_at = Some 90, d_queued_at = Some 10, d_dedupe_key = Some (str ''k''),
        d_dedupe_group = Some (str ''k''), d_normalized_url = None, d_priority = Some (str ''P0''),
        d_created_at = Some 10, d_error = Some (str ''resend_status=500''), d_delivered_at = None\<rparr>]"]
  by (simp add: key_of_def due_key_def Let_def)

subsection \<open>The cursor\<close>

lemma foldl_observe:
  "foldl (\<lambda>max_ts item. observe_ts (m_ts item) max_ts) acc matches =
     (if observed matches = [] then acc
      else Some (Max (set (case acc of None \<Rightarrow> observed matches | Some a \<Rightarrow> a # observed matches))))"
proof (induction matches arbitrary: acc)
  case Nil
  then show ?case by simp
next
  case (Cons it its)
  show ?case
  proof (cases "m_ts it")
    case None
    then show ?thesis using Cons.IH[of acc] by (simp add: observe_ts_def split: option.splits)
  next
    case (Some t)
    note ts = this
    show ?thesis
    proof (cases acc)
      case None
      then show ?thesis using Cons.IH[of "Some t"] ts
        by (simp add: observe_ts_def)
    next
      case (Some a)
      have step: "observe_ts (Some t) (Some a) = Some (max a t)"
        by (simp add: observe_ts_def max_def)
      have "Max (insert (max a t) (set (observed its))) = Max (insert a (insert t (set (observed its))))"
        by (cases "observed its = []") (simp_all add: max.assoc)
      then show ?thesis using Cons.IH[of "Some (max a t)"] ts Some step
        by (simp add: max.commute)
    qed
  qed
qed

lemma scan_max_ts_eq:
  "scan_max_ts matches = (if observed matches = [] then None else Some (Max (set (observed matches))))"
  by (simp add: scan_max_ts_def foldl_observe)

text \<open>
  C3. For every alert, prior cursor and matches scanned in any order, the cursor after the
  run is the maximum of the prior cursor and the timestamps observed (the prior cursor
  when none was observed); it never decreases, the cursors of other alerts are untouched,
  and two scans that observe the same timestamps, in whatever order, leave the same cursor.
\<close>

theorem cursor_is_max:
  "cursor_of (advance_cursor alert matches now cursors) alert =
     (if observed matches = [] then cursor_of cursors alert
      else Some (Max (set (case cursor_of cursors alert of
                             None \<Rightarrow> observed matches
                           | Some prior \<Rightarrow> prior # observed matches)))) \<and>
   (\<forall>prior. cursor_of cursors alert = Some prior \<longrightarrow>
      (\<exists>post. cursor_of (advance_cursor alert matches now cursors) alert = Some post \<and> prior \<le> post)) \<and>
   (\<forall>other. other \<noteq> alert \<longrightarrow> advance_cursor alert matches now cursors other = cursors other) \<and>
   (\<forall>matches'. set (observed matches') = set (observed matches) \<longrightarrow>
      cursor_of (advance_cursor alert matches' now cursors) alert =
      cursor_of (advance_cursor alert matches now cursors) alert)"
proof -
  have main: "\<And>ms. cursor_of (advance_cursor alert ms now cursors) alert =
     (if observed ms = [] then cursor_of cursors alert
      else Some (Max (set (case cursor_of cursors alert of
                             None \<Rightarrow> observed ms
                           | Some prior \<Rightarrow> prior # observed ms))))"
    by (auto simp: advance_cursor_def scan_max_ts_eq upsert_cursor_def cursor_of_def sql_greatest_def
        max.commute split: option.splits)
  have mono: "\<forall>prior. cursor_of cursors alert = Some prior \<longrightarrow>
      (\<exists>post. cursor_of (advance_cursor alert matches now cursors) alert = Some post \<and> prior \<le> post)"
    by (simp add: main)
  have frame: "\<forall>other. other \<noteq> alert \<longrightarrow> advance_cursor alert matches now cursors other = cursors other"
    by (simp add: advance_cursor_def upsert_cursor_def split: option.splits)
  have perm: "\<forall>matches'. set (observed matches') = set (observed matches) \<longrightarrow>
      cursor_of (advance_cursor alert matches' now cursors) alert =
      cursor_of (advance_cursor alert matches now cursors) alert"
  proof (intro allI impI)
    fix ms assume eq: "set (observed ms) = set (observed matches)"
    then have "(observed ms = []) = (observed matches = [])" by (metis set_empty)
    then show "cursor_of (advance_cursor alert ms now cursors) alert =
      cursor_of (advance_cursor alert matches now cursors) alert"
      using eq by (simp add: main split: option.splits)
  qed
  show ?thesis using main[of matches] mono frame perm by blast
qed

theorem cursor_is_max_witness:
  "cursor_of (advance_cursor 1
      [ex_match 1 ''a'' None 30, ex_match 2 ''b'' None 10, ex_match 3 ''c'' None 20] 99
      (Map.empty(1 \<mapsto> \<lparr>c_last_ts = Some 15, c_updated_at = Some 5\<rparr>))) 1 = Some 30 \<and>
   cursor_of (advance_cursor 1
      [ex_match 1 ''a'' None 30, ex_match 2 ''b'' None 10, ex_match 3 ''c'' None 20] 99
      (Map.empty(1 \<mapsto> \<lparr>c_last_ts = Some 50, c_updated_at = Some 5\<rparr>))) 1 = Some 50"
  using cursor_is_max [of 1 "[ex_match 1 ''a'' None 30, ex_match 2 ''b'' None 10, ex_match 3 ''c'' None 20]"
      99 "Map.empty(1 \<mapsto> \<lparr>c_last_ts = Some 15, c_updated_at = Some 5\<rparr>)"]
    cursor_is_max [of 1 "[ex_match 1 ''a'' None 30, ex_match 2 ''b'' None 10, ex_match 3 ''c'' None 20]"
      99 "Map.empty(1 \<mapsto> \<lparr>c_last_ts = Some 50, c_updated_at = Some 5\<rparr>)"]
  by (simp add: cursor_of_def ex_match_def)

subsection \<open>Dedupe keys\<close>

lemma date_str_2024_05_01:
  assumes "1714521600000000 \<le> ts" "ts < 1714608000000000"
  shows "date_str ts = str ''2024-05-01''"
proof -
  have day: "ts div 86400000000 = 19844" using assms by linarith
  have civil: "civil_from_days 19844 = (2024, 5, 1)" by code_simp
  show ?thesis
    by (simp add: date_str_def day civil zero_pad_def str_def)
qed

lemma normalize_url_empty: "normalize_url L [] = []"
  by (simp add: normalize_url_def py_strip_def py_rstrip_def py_lstrip_def)

lemma lower_title:
  assumes "u_lower_full L 8212 = [8212]"
  shows "py_lower L (str ''BREAKING: Oil Output Rises '' @ [8212] @ str '' Reuters!!'')
         = str ''breaking: oil output rises '' @ [8212] @ str '' reuters!!''"
  using assms by (simp add: py_lower_def lower_char_def str_def)

lemma title_example:
  assumes "u_lower_full L 8212 = [8212]" "\<not> u_isalnum L 8212"
  shows "normalize_title L (str ''BREAKING: Oil Output Rises '' @ [8212] @ str '' Reuters!!'')
         = str ''breaking oil output rises reuters''"
  unfolding normalize_title_def lower_title[OF assms(1)]
  using assms(2)
  by (simp add: str_def py_isalnum_def ascii_isalpha_def ascii_isdigit_def py_split_ws_def py_isspace_def)

text \<open>
  C7. For a match with no URL, title "BREAKING: Oil Output Rises (em dash) Reuters!!",
  source "Reuters" and an as-of timestamp on 2024-05-01, the key is
  \<open>reuters|breaking oil output rises reuters|2024-05-01\<close> and the normalized URL is empty.
  The em dash U+2014 is punctuation without a case mapping, which the character database
  has to say: its lower-casing is itself and it is not alphanumeric.
\<close>

theorem title_fallback_key:
  assumes "u_lower_full L 8212 = [8212]" "\<not> u_isalnum L 8212"
    and "1714521600000000 \<le> ts" "ts < 1714608000000000"
  shows "compute_dedupe_key L
           \<lparr>m_id = i, m_title = Some (str ''BREAKING: Oil Output Rises '' @ [8212] @ str '' Reuters!!''),
            m_url = None, m_summary = s, m_category_guess = c, m_ts = Some ts,
            m_source_name = Some (str ''Reuters'')\<rparr>
         = (str ''reuters|breaking oil output rises reuters|2024-05-01'', [])"
proof -
  have src: "py_lower L (py_strip L (or_empty (Some (str ''Reuters'')))) = str ''reuters''"
    by (simp add: or_empty_def py_strip_def py_rstrip_def py_lstrip_def py_isspace_def py_lower_def
        lower_char_def str_def)
  have title: "normalize_title L (or_empty (Some (str ''BREAKING: Oil Output Rises '' @ [8212] @ str '' Reuters!!'')))
         = str ''breaking oil output rises reuters''"
    using title_example[OF assms(1,2)] by (simp add: or_empty_def)
  have url: "normalize_url L (or_empty None) = []"
    by (simp add: or_empty_def normalize_url_empty)
  have parts: "filter (\<lambda>p. p \<noteq> []) [str ''reuters'', str ''breaking oil output rises reuters'', str ''2024-05-01'']
      = [str ''reuters'', str ''breaking oil output rises reuters'', str ''2024-05-01'']"
    by (simp add: str_def)
  have joined: "py_join [124] [str ''reuters'', str ''breaking oil output rises reuters'', str ''2024-05-01'']
      = str ''reuters|breaking oil output rises reuters|2024-05-01''"
    by (simp add: str_def)
  show ?thesis
    unfolding compute_dedupe_key_def
    by (simp only: match_row.simps url src title date_str_2024_05_01[OF assms(3,4)] option.case
        Let_def parts joined) simp
qed

theorem title_fallback_key_witness:
  "compute_dedupe_key ascii_lib
           \<lparr>m_id = 5, m_title = Some (str ''BREAKING: Oil Output Rises '' @ [8212] @ str '' Reuters!!''),
            m_url = None, m_summary = None, m_category_guess = None, m_ts = Some 1714557600000000,
            m_source_name = Some (str ''Reuters'')\<rparr>
         = (str ''reuters|breaking oil output rises reuters|2024-05-01'', [])"
  using title_fallback_key [of ascii_lib 1714557600000000 5 None None]
  by (simp add: ascii_lib_def)

subsection \<open>The Matcher\<close>







lemma sql_or_list_true:
  "(sql_or_list bs = Some True) = (Some True \<in> set bs)"
  by (induction bs) (auto simp: sql_or_def)


lemma sql_and_true: "(sql_and a b = Some True) = (a = Some True \<and> b = Some True)"
  by (cases a; cases b) (auto simp: sql_and_def)










lemma order_desc_sorted: "sorted_wrt (\<lambda>a b. key a \<ge> key b) (order_desc key rows)"
proof -
  have "sorted (map key (sort_key key (rev rows)))" by simp
  then have "sorted_wrt (\<lambda>a b. key a \<le> key b) (sort_key key (rev rows))"
    by (simp add: sorted_wrt_map)
  then show ?thesis by (simp add: order_desc_def sorted_wrt_rev)
qed

lemma order_desc_set: "set (order_desc key rows) = set rows"
  by (simp add: order_desc_def)

lemma selected_row_ts:
  assumes "where_clause P sql ps now r = Some True"
  shows "m_ts (select_row sql r) = Some (row_ts sql r)"
proof -
  have "sql_ge (ts_value (q_ts_expr sql) (fst r))
          (case sp_start_ts ps of Some s \<Rightarrow> Some s
           | None \<Rightarrow> Some (now - usec (sp_days ps * 86400))) = Some True"
    using assms by (simp add: where_clause_def sql_and_true)
  then have "ts_value (q_ts_expr sql) (fst r) \<noteq> None"
    by (auto simp: sql_ge_def split: option.splits)
  then show ?thesis by (auto simp: select_row_def row_ts_def)
qed




text \<open>
  C6 (as amended). The matches are the selected rows in the order of the query: without a
  \<open>search_tsv\<close> column by their own as-of timestamp, newest first; with it by full-text
  rank first, highest first, and by timestamp, newest first, among equal ranks. Every
  match carries its own as-of timestamp.
\<close>

theorem matcher_order:
  assumes "matcher L P sc al cursor overlap match_limit now articles sources = Inr ms"
  shows "\<exists>rows.
           search_rows P (pick_search_sql sc (pick_article_ts_expr (has_published_at sc)))
             (bind_params L al cursor overlap match_limit) now articles sources = Inr rows \<and>
           ms = map (select_row (pick_search_sql sc (pick_article_ts_expr (has_published_at sc)))) rows \<and>
           (\<forall>r \<in> set rows.
              m_ts (select_row (pick_search_sql sc (pick_article_ts_expr (has_published_at sc))) r) =
              Some (row_ts (pick_search_sql sc (pick_article_ts_expr (has_published_at sc))) r)) \<and>
           (if has_search_tsv sc
            then sorted_wrt (\<lambda>r r'.
                   (fts_rank P (fst r) (py_strip L (al_query al)),
                    row_ts (pick_search_sql sc (pick_article_ts_expr (has_published_at sc))) r) \<ge>
                   (fts_rank P (fst r') (py_strip L (al_query al)),
                    row_ts (pick_search_sql sc (pick_article_ts_expr (has_published_at sc))) r')) rows
            else sorted_wrt (\<lambda>m m'. the (m_ts m) \<ge> the (m_ts m')) ms)"
proof -
  let ?sql = "pick_search_sql sc (pick_article_ts_expr (has_published_at sc))"
  let ?ps = "bind_params L al cursor overlap match_limit"
  let ?sel = "filter (\<lambda>r. where_clause P ?sql ?ps now r = Some True)
                (left_join_sources (q_join_sources ?sql) articles sources)"
  from assms obtain rows where rows: "search_rows P ?sql ?ps now articles sources = Inr rows"
    and ms: "ms = map (select_row ?sql) rows"
    by (auto simp: matcher_def run_search_def split: sum.splits)
  from rows have lim: "\<not> sp_limit ?ps < 0" and def: "rows = take (nat (sp_limit ?ps)) (order_rows P ?sql ?ps ?sel)"
    by (auto simp: search_rows_def split: if_splits)
  have sub: "set rows \<subseteq> set ?sel"
  proof -
    have "set rows \<subseteq> set (order_rows P ?sql ?ps ?sel)" unfolding def by (rule set_take_subset)
    also have "\<dots> = set ?sel" by (simp add: order_rows_def order_desc_set split: order_by.splits)
    finally show ?thesis .
  qed
  have ts: "\<forall>r \<in> set rows. m_ts (select_row ?sql r) = Some (row_ts ?sql r)"
  proof
    fix r assume "r \<in> set rows"
    then have "where_clause P ?sql ?ps now r = Some True" using sub by auto
    then show "m_ts (select_row ?sql r) = Some (row_ts ?sql r)" by (rule selected_row_ts)
  qed
  have q: "sp_q ?ps = py_strip L (al_query al)" by (simp add: bind_params_def Let_def)
  have ordered: "if has_search_tsv sc
            then sorted_wrt (\<lambda>r r'.
                   (fts_rank P (fst r) (py_strip L (al_query al)), row_ts ?sql r) \<ge>
                   (fts_rank P (fst r') (py_strip L (al_query al)), row_ts ?sql r')) rows
            else sorted_wrt (\<lambda>m m'. the (m_ts m) \<ge> the (m_ts m')) ms"
  proof (cases "has_search_tsv sc")
    case True
    then have "order_rows P ?sql ?ps ?sel =
               order_desc (\<lambda>r. (fts_rank P (fst r) (py_strip L (al_query al)), row_ts ?sql r)) ?sel"
      by (simp add: order_rows_def pick_search_sql_def q)
    then have "sorted_wrt (\<lambda>r r'.
                   (fts_rank P (fst r) (py_strip L (al_query al)), row_ts ?sql r) \<ge>
                   (fts_rank P (fst r') (py_strip L (al_query al)), row_ts ?sql r')) rows"
      unfolding def using order_desc_sorted[of "\<lambda>r. (fts_rank P (fst r) (py_strip L (al_query al)), row_ts ?sql r)" ?sel]
      by (simp add: sorted_wrt_take)
    then show ?thesis using True by simp
  next
    case False
    then have "order_rows P ?sql ?ps ?sel = order_desc (row_ts ?sql) ?sel"
      by (simp add: order_rows_def pick_search_sql_def)
    then have "sorted_wrt (\<lambda>r r'. row_ts ?sql r \<ge> row_ts ?sql r') rows"
      unfolding def using order_desc_sorted[of "row_ts ?sql" ?sel] by (simp add: sorted_wrt_take)
    then have "sorted_wrt (\<lambda>r r'. the (m_ts (select_row ?sql r)) \<ge> the (m_ts (select_row ?sql r'))) rows"
      by (rule sorted_wrt_mono_rel[rotated]) (simp add: ts)
    then have "sorted_wrt (\<lambda>m m'. the (m_ts m) \<ge> the (m_ts m')) ms"
      unfolding ms by (simp add: sorted_wrt_map)
    then show ?thesis using False by simp
  qed
  show ?thesis using rows ms ts ordered by blast
qed

theorem matcher_order_witness:
  "matcher ascii_lib ex_pg (ex_schema False True) (ex_alert ''Oil'') None 86400 50 2000000000000
     [ex_article 1 ''Output'' ''Oil output rises'' 1900000000000,
      ex_article 2 ''Prices'' ''Crude OIL prices'' 1990000000000] []
   = Inr [ex_match 2 ''Prices'' (Some ''Crude OIL prices'') 1990000000000,
          ex_match 1 ''Output'' (Some ''Oil output rises'') 1900000000000] \<and>
   sorted_wrt (\<lambda>m m'. the (m_ts m) \<ge> the (m_ts m'))
     [ex_match 2 ''Prices'' (Some ''Crude OIL prices'') 1990000000000,
      ex_match 1 ''Output'' (Some ''Oil output rises'') 1900000000000]"
proof -
  have run: "matcher ascii_lib ex_pg (ex_schema False True) (ex_alert ''Oil'') None 86400 50 2000000000000
     [ex_article 1 ''Output'' ''Oil output rises'' 1900000000000,
      ex_article 2 ''Prices'' ''Crude OIL prices'' 1990000000000] []
   = Inr [ex_match 2 ''Prices'' (Some ''Crude OIL prices'') 1990000000000,
          ex_match 1 ''Output'' (Some ''Oil output rises'') 1900000000000]"
    by (simp add: ex_defs matcher_defs strip_defs ascii_lib_def str_def)
  show ?thesis using matcher_order [OF run] run
    by (simp add: ex_match_def)
qed

text \<open>With a \<open>search_tsv\<close> column the older article, ranked higher, comes first.\<close>

theorem matcher_order_counterexample:
  "matcher ascii_lib ex_pg (ex_schema True True) (ex_alert ''Oil'') None 86400 50 2000000000000
     [ex_article 1 ''Output'' ''Oil output rises'' 1900000000000,
      ex_article 2 ''Prices'' ''Crude OIL prices'' 1990000000000] []
   = Inr [ex_match 1 ''Output'' (Some ''Oil output rises'') 1900000000000,
          ex_match 2 ''Prices'' (Some ''Crude OIL prices'') 1990000000000] \<and>
   \<not> sorted_wrt (\<lambda>m m'. the (m_ts m) \<ge> the (m_ts m'))
     [ex_match 1 ''Output'' (Some ''Oil output rises'') 1900000000000,
      ex_match 2 ''Prices'' (Some ''Crude OIL prices'') 1990000000000]"
  by (simp add: ex_defs matcher_defs strip_defs ascii_lib_def str_def)

subsection \<open>Claiming\<close>

lemma key_of_set_sent [simp]: "key_of (set_sent now d) = key_of d"
  by (simp add: key_of_def set_sent_def)

lemma key_of_set_failed [simp]: "key_of (set_failed err backoff now d) = key_of d"
  by (simp add: key_of_def set_failed_def)

lemma update_keys:
  "(\<And>d. key_of (f d) = key_of d) \<Longrightarrow> map key_of (sql_update_where_key k f tbl) = map key_of tbl"
  by (induction tbl) (auto simp: sql_update_where_key_def)

lemma mark_delivery_sent_keys: "map key_of (mark_delivery_sent now d tbl) = map key_of tbl"
  by (simp add: mark_delivery_sent_def update_keys)

lemma mark_delivery_failed_keys:
  "map key_of (fst (mark_delivery_failed L env now wall tg mail d error rb rm ma (tbl, nf))) = map key_of tbl"
  by (simp add: mark_delivery_failed_def Let_def update_keys split: prod.splits)

lemma key_of_new_delivery:
  "key_of (new_delivery al article dk nu sp now) = (al_alert_id al, article, al_channel al)"
  by (simp add: key_of_def new_delivery_def)

lemma claim_insert_table:
  "fst (claim_insert al article dk nu sp now (tbl, cnt)) =
     (if (al_alert_id al, article, al_channel al) \<in> set (map key_of tbl) then tbl
      else tbl @ [new_delivery al article dk nu sp now])"
  by (simp add: claim_insert_def sql_insert_delivery_def key_of_new_delivery)

lemma claim_insert_present:
  "(al_alert_id al, article, al_channel al) \<in> set (map key_of tbl) \<Longrightarrow>
   claim_insert al article dk nu sp now (tbl, cnt) = (tbl, cnt\<lparr>n_skipped := n_skipped cnt + 1\<rparr>)"
  by (simp add: claim_insert_def sql_insert_delivery_def key_of_new_delivery)

lemma table_step_distinct:
  "table_step tbl tbl' \<Longrightarrow> distinct (map key_of tbl) \<Longrightarrow> distinct (map key_of tbl')"
proof (induction rule: table_step.induct)
  case (step_claim tbl al article dk nu sp now cnt)
  then show ?case by (auto simp: claim_insert_table key_of_new_delivery)
next
  case (step_sent tbl now d)
  then show ?case by (simp add: mark_delivery_sent_keys)
next
  case (step_failed tbl L env now wall tg mail d error rb rm ma nf)
  then show ?case by (simp add: mark_delivery_failed_keys)
qed

lemma table_step_keys: "table_step tbl tbl' \<Longrightarrow> set (map key_of tbl) \<subseteq> set (map key_of tbl')"
proof (induction rule: table_step.induct)
  case (step_claim tbl al article dk nu sp now cnt)
  then show ?case by (auto simp: claim_insert_table)
next
  case (step_sent tbl now d)
  then show ?case by (simp add: mark_delivery_sent_keys)
next
  case (step_failed tbl L env now wall tg mail d error rb rm ma nf)
  then show ?case by (simp add: mark_delivery_failed_keys)
qed

lemma table_steps_distinct:
  "table_step\<^sup>*\<^sup>* tbl tbl' \<Longrightarrow> distinct (map key_of tbl) \<Longrightarrow> distinct (map key_of tbl')"
  by (induction rule: rtranclp_induct) (auto intro: table_step_distinct)

lemma table_steps_keys:
  "table_step\<^sup>*\<^sup>* tbl tbl' \<Longrightarrow> set (map key_of tbl) \<subseteq> set (map key_of tbl')"
proof (induction rule: rtranclp_induct)
  case base
  then show ?case by simp
next
  case (step y z)
  then show ?case using table_step_keys[of y z] by blast
qed

lemma rows_of_absent: "k \<notin> set (map key_of tbl) \<Longrightarrow> rows_of k tbl = []"
  by (induction tbl) (auto simp: rows_of_def)

lemma distinct_rows_of:
  "distinct (map key_of tbl) \<Longrightarrow> k \<in> set (map key_of tbl) \<Longrightarrow> length (rows_of k tbl) = 1"
proof (induction tbl)
  case Nil
  then show ?case by simp
next
  case (Cons d tbl)
  show ?case
  proof (cases "key_of d = k")
    case True
    then have "k \<notin> set (map key_of tbl)" using Cons.prems(1) by auto
    then have "rows_of k tbl = []" by (rule rows_of_absent)
    then show ?thesis using True by (simp add: rows_of_def)
  next
    case False
    then have "k \<in> set (map key_of tbl)" using Cons.prems(2) by auto
    then have "length (rows_of k tbl) = 1" using Cons.IH Cons.prems(1) by simp
    then show ?thesis using False by (simp add: rows_of_def)
  qed
qed

lemma recent_keys_iff:
  "k \<in> recent_keys al pr keys now tbl \<longleftrightarrow> k \<in> set keys \<and> recent_duplicate al pr now tbl k"
  by (auto simp: recent_keys_def recent_duplicate_def split: option.splits if_splits)

lemma claim_insert_counts:
  "claim_insert al article dk nu sp now (tbl, cnt) = (tbl', cnt') \<Longrightarrow>
   (if (al_alert_id al, article, al_channel al) \<in> set (map key_of tbl)
    then tbl' = tbl \<and> n_queued cnt' = n_queued cnt \<and> n_skipped cnt' = n_skipped cnt + 1
    else tbl' = tbl @ [new_delivery al article dk nu sp now] \<and>
         n_queued cnt' = n_queued cnt + 1 \<and> n_skipped cnt' = n_skipped cnt)"
  by (auto simp: claim_insert_def sql_insert_delivery_def key_of_new_delivery)

lemma claim_item_passed:
  "\<not> reaches_insert al pr R row \<Longrightarrow> claim_item al pr R sp now row st = st"
  by (cases row) (auto simp: claim_item_def reaches_insert_def)

lemma claim_item_reaches:
  "reaches_insert al pr R (item, dk, nu) \<Longrightarrow>
   claim_item al pr R sp now (item, dk, nu) st = claim_insert al (m_id item) dk nu sp now st"
  by (auto simp: claim_item_def reaches_insert_def)

lemma claim_fold:
  assumes "distinct (map key_of tbl)"
    and "foldl (\<lambda>s row. claim_item al pr R sp now row s) (tbl, cnt) rows = (tbl', cnt')"
  shows "\<exists>new. tbl' = tbl @ new \<and> distinct (map key_of tbl') \<and>
           set (map key_of tbl') = set (map key_of tbl) \<union>
             (\<lambda>row. triple al (fst row)) ` {row \<in> set rows. reaches_insert al pr R row} \<and>
           n_queued cnt' = n_queued cnt + int (length new) \<and>
           n_skipped cnt' + n_queued cnt' = n_skipped cnt + n_queued cnt +
             int (length (filter (reaches_insert al pr R) rows))"
  using assms
proof (induction rows arbitrary: tbl cnt)
  case Nil
  then show ?case by simp
next
  case (Cons row rows)
  obtain item dk nu where row: "row = (item, dk, nu)" by (cases row) auto
  obtain t1 c1 where s1: "claim_item al pr R sp now row (tbl, cnt) = (t1, c1)"
    by (cases "claim_item al pr R sp now row (tbl, cnt)") auto
  have rest: "foldl (\<lambda>s row. claim_item al pr R sp now row s) (t1, c1) rows = (tbl', cnt')"
    using Cons.prems(2) s1 by simp
  show ?case
  proof (cases "reaches_insert al pr R row")
    case False
    then have e: "t1 = tbl" "c1 = cnt" using s1 by (simp_all add: claim_item_passed)
    have "{r \<in> set (row # rows). reaches_insert al pr R r} = {r \<in> set rows. reaches_insert al pr R r}"
      using False by auto
    then show ?thesis using Cons.IH[OF Cons.prems(1), of cnt] rest False unfolding e by simp
  next
    case True
    then have ci: "claim_insert al (m_id item) dk nu sp now (tbl, cnt) = (t1, c1)"
      using s1 by (simp add: claim_item_reaches row)
    note cc = claim_insert_counts[OF ci]
    have sets: "{r \<in> set (row # rows). reaches_insert al pr R r} =
                insert row {r \<in> set rows. reaches_insert al pr R r}"
      using True by auto
    have tr: "triple al (fst row) = (al_alert_id al, m_id item, al_channel al)"
      by (simp add: row triple_def)
    show ?thesis
    proof (cases "(al_alert_id al, m_id item, al_channel al) \<in> set (map key_of tbl)")
      case present: True
      then have e: "t1 = tbl" "n_queued c1 = n_queued cnt" "n_skipped c1 = n_skipped cnt + 1"
        using cc by simp_all
      from Cons.IH[OF Cons.prems(1), of c1] rest e(1) obtain new where
        n: "tbl' = tbl @ new" "distinct (map key_of tbl')"
           "set (map key_of tbl') = set (map key_of tbl) \<union>
             (\<lambda>row. triple al (fst row)) ` {row \<in> set rows. reaches_insert al pr R row}"
           "n_queued cnt' = n_queued c1 + int (length new)"
           "n_skipped cnt' + n_queued cnt' = n_skipped c1 + n_queued c1 +
             int (length (filter (reaches_insert al pr R) rows))"
        by blast
      have keys: "set (map key_of tbl') = set (map key_of tbl) \<union>
             (\<lambda>row. triple al (fst row)) ` {r \<in> set (row # rows). reaches_insert al pr R r}"
        unfolding sets n(3) using present tr by auto
      have q: "n_queued cnt' = n_queued cnt + int (length new)" using n(4) e(2) by simp
      have k: "n_skipped cnt' + n_queued cnt' = n_skipped cnt + n_queued cnt +
             int (length (filter (reaches_insert al pr R) (row # rows)))"
        using n(5) e(2,3) True by simp
      show ?thesis using n(1,2) keys q k by blast
    next
      case absent: False
      let ?d = "new_delivery al (m_id item) dk nu sp now"
      have e: "t1 = tbl @ [?d]" "n_queued c1 = n_queued cnt + 1" "n_skipped c1 = n_skipped cnt"
        using cc absent by simp_all
      have d1: "distinct (map key_of t1)"
        using Cons.prems(1) absent by (simp add: e(1) key_of_new_delivery)
      from Cons.IH[OF d1, of c1] rest obtain new where
        n: "tbl' = t1 @ new" "distinct (map key_of tbl')"
           "set (map key_of tbl') = set (map key_of t1) \<union>
             (\<lambda>row. triple al (fst row)) ` {row \<in> set rows. reaches_insert al pr R row}"
           "n_queued cnt' = n_queued c1 + int (length new)"
           "n_skipped cnt' + n_queued cnt' = n_skipped c1 + n_queued c1 +
             int (length (filter (reaches_insert al pr R) rows))"
        by blast
      have keys: "set (map key_of tbl') = set (map key_of tbl) \<union>
             (\<lambda>row. triple al (fst row)) ` {r \<in> set (row # rows). reaches_insert al pr R r}"
        unfolding sets n(3) using tr by (auto simp: e(1) key_of_new_delivery)
      have "tbl' = tbl @ (?d # new)" using n(1) e(1) by simp
      moreover have "n_queued cnt' = n_queued cnt + int (length (?d # new))"
        using n(4) e(2) by simp
      moreover have "n_skipped cnt' + n_queued cnt' = n_skipped cnt + n_queued cnt +
             int (length (filter (reaches_insert al pr R) (row # rows)))"
        using n(5) e(2,3) True by simp
      ultimately show ?thesis using n(2) keys by blast
    qed
  qed
qed

lemma reaches_insert_iff:
  assumes "fst (compute_dedupe_key L m) \<in> set keys"
  shows "reaches_insert al pr (recent_keys al pr keys now tbl) (m, compute_dedupe_key L m)
         \<longleftrightarrow> \<not> passed_over L al pr now tbl m"
  using assms by (auto simp: reaches_insert_def passed_over_def recent_keys_iff)

lemma claim_matches_accounting:
  assumes "distinct (map key_of tbl)"
    and "claim_matches L al pr now matches (tbl, cnt) = (tbl', cnt')"
  shows "\<exists>new. tbl' = tbl @ new \<and> distinct (map key_of tbl') \<and>
           set (map key_of tbl') = set (map key_of tbl) \<union>
             triple al ` {m \<in> set matches. \<not> passed_over L al pr now tbl m} \<and>
           n_queued cnt' = n_queued cnt + int (length new) \<and>
           n_skipped cnt' + n_queued cnt' = n_skipped cnt + n_queued cnt +
             int (length (filter (\<lambda>m. \<not> passed_over L al pr now tbl m) matches))"
proof (cases "matches = []")
  case True
  then have "tbl' = tbl" "cnt' = cnt" using assms(2) by (simp_all add: claim_matches_def dedupe_rows_def)
  then show ?thesis using assms(1) True by simp
next
  case False
  let ?rows = "dedupe_rows L matches"
  let ?R = "recent_keys al pr (map (\<lambda>r. fst (snd r)) ?rows) now tbl"
  let ?sp = "priority_for_search L al (p_priority_categories pr)"
  have ne: "?rows \<noteq> []" using False by (simp add: dedupe_rows_def)
  have run: "foldl (\<lambda>s row. claim_item al pr ?R ?sp now row s) (tbl, cnt) ?rows = (tbl', cnt')"
    using assms(2) ne by (simp add: claim_matches_def Let_def)
  have mem: "fst (compute_dedupe_key L m) \<in> set (map (\<lambda>r. fst (snd r)) ?rows)" if "m \<in> set matches" for m
    using that by (force simp: dedupe_rows_def)
  have "filter (reaches_insert al pr ?R \<circ> (\<lambda>m. (m, compute_dedupe_key L m))) matches =
        filter (\<lambda>m. \<not> passed_over L al pr now tbl m) matches"
    by (rule filter_cong) (simp_all add: reaches_insert_iff[OF mem])
  then have f: "filter (reaches_insert al pr ?R) ?rows =
           map (\<lambda>m. (m, compute_dedupe_key L m)) (filter (\<lambda>m. \<not> passed_over L al pr now tbl m) matches)"
    by (simp add: dedupe_rows_def filter_map)
  have len: "length (filter (reaches_insert al pr ?R) ?rows) =
             length (filter (\<lambda>m. \<not> passed_over L al pr now tbl m) matches)"
    unfolding f by simp
  have "{row \<in> set ?rows. reaches_insert al pr ?R row} = set (filter (reaches_insert al pr ?R) ?rows)"
    by simp
  also have "\<dots> = (\<lambda>m. (m, compute_dedupe_key L m)) ` {m \<in> set matches. \<not> passed_over L al pr now tbl m}"
    unfolding f by simp
  finally have img: "(\<lambda>row. triple al (fst row)) ` {row \<in> set ?rows. reaches_insert al pr ?R row} =
                     triple al ` {m \<in> set matches. \<not> passed_over L al pr now tbl m}"
    by (simp add: image_image)
  show ?thesis using claim_fold[OF assms(1) run] unfolding img len .
qed

text \<open>
  C2. From a table with at most one row per (alert, article, channel), the claiming step
  of a run, whatever INSERTs and UPDATEs of this or of later runs follow it, and a later
  claiming step for the same alert leave at most one row per triple. The first step only
  appends rows, and every match it does not pass over is counted once, as queued when it
  made a row and as skipped otherwise. Every article the first step did not pass over has
  exactly one row afterwards, and claiming such articles again creates no row, leaves the
  table as it is and queues nothing; the second claim is counted as skipped when it
  reaches the INSERT, and is counted in neither counter when it is passed over before
  it (a recent duplicate of its dedupe key, or a channel that is not enabled).
\<close>

theorem one_delivery_per_key:
  assumes "distinct (map key_of tbl)"
    and "claim_matches L al pr now matches (tbl, cnt) = (tbl1, cnt1)"
    and "table_step\<^sup>*\<^sup>* tbl1 tbl2"
    and "claim_matches L al pr' now' matches' (tbl2, cnt2) = (tbl3, cnt3)"
    and "m_id ` set matches' \<subseteq> m_id ` {m \<in> set matches. \<not> passed_over L al pr now tbl m}"
  shows "distinct (map key_of tbl1) \<and> distinct (map key_of tbl2) \<and> distinct (map key_of tbl3) \<and>
         (\<exists>new. tbl1 = tbl @ new \<and> n_queued cnt1 = n_queued cnt + int (length new) \<and>
            n_skipped cnt1 + n_queued cnt1 = n_skipped cnt + n_queued cnt +
              int (length (filter (\<lambda>m. \<not> passed_over L al pr now tbl m) matches))) \<and>
         (\<forall>m \<in> set matches'. length (rows_of (triple al m) tbl2) = 1) \<and>
         tbl3 = tbl2 \<and> n_queued cnt3 = n_queued cnt2 \<and>
         n_skipped cnt3 = n_skipped cnt2 +
           int (length (filter (\<lambda>m. \<not> passed_over L al pr' now' tbl2 m) matches'))"
proof -
  from claim_matches_accounting[OF assms(1,2)] obtain new where
    a1: "tbl1 = tbl @ new" "distinct (map key_of tbl1)"
        "set (map key_of tbl1) = set (map key_of tbl) \<union>
           triple al ` {m \<in> set matches. \<not> passed_over L al pr now tbl m}"
        "n_queued cnt1 = n_queued cnt + int (length new)"
        "n_skipped cnt1 + n_queued cnt1 = n_skipped cnt + n_queued cnt +
           int (length (filter (\<lambda>m. \<not> passed_over L al pr now tbl m) matches))"
    by blast
  have d2: "distinct (map key_of tbl2)" using assms(3) a1(2) by (rule table_steps_distinct)
  have k2: "set (map key_of tbl1) \<subseteq> set (map key_of tbl2)" using assms(3) by (rule table_steps_keys)
  have present: "triple al m \<in> set (map key_of tbl2)" if "m \<in> set matches'" for m
  proof -
    have "m_id m \<in> m_id ` {m \<in> set matches. \<not> passed_over L al pr now tbl m}"
      using that assms(5) by blast
    then obtain m0 where
      m0: "m0 \<in> set matches" "\<not> passed_over L al pr now tbl m0" "m_id m0 = m_id m"
      by auto
    then have "triple al m0 \<in> set (map key_of tbl1)" unfolding a1(3) by blast
    moreover have "triple al m0 = triple al m" using m0(3) by (simp add: triple_def)
    ultimately show ?thesis using k2 by auto
  qed
  from claim_matches_accounting[OF d2 assms(4)] obtain new' where
    a2: "tbl3 = tbl2 @ new'" "distinct (map key_of tbl3)"
        "set (map key_of tbl3) = set (map key_of tbl2) \<union>
           triple al ` {m \<in> set matches'. \<not> passed_over L al pr' now' tbl2 m}"
        "n_queued cnt3 = n_queued cnt2 + int (length new')"
        "n_skipped cnt3 + n_queued cnt3 = n_skipped cnt2 + n_queued cnt2 +
           int (length (filter (\<lambda>m. \<not> passed_over L al pr' now' tbl2 m) matches'))"
    by blast
  have "set (map key_of tbl3) = set (map key_of tbl2)" unfolding a2(3) using present by auto
  then have "set (map key_of new') \<subseteq> set (map key_of tbl2)" unfolding a2(1) by auto
  moreover have "set (map key_of new') \<inter> set (map key_of tbl2) = {}"
    using a2(2) unfolding a2(1) by auto
  ultimately have "new' = []" by (cases new') auto
  then have e: "tbl3 = tbl2" "n_queued cnt3 = n_queued cnt2" using a2(1,4) by simp_all
  have s: "n_skipped cnt3 = n_skipped cnt2 +
           int (length (filter (\<lambda>m. \<not> passed_over L al pr' now' tbl2 m) matches'))"
    using a2(5) e(2) by simp
  have one: "\<forall>m \<in> set matches'. length (rows_of (triple al m) tbl2) = 1"
    using present distinct_rows_of[OF d2] by blast
  have first: "\<exists>new. tbl1 = tbl @ new \<and> n_queued cnt1 = n_queued cnt + int (length new) \<and>
            n_skipped cnt1 + n_queued cnt1 = n_skipped cnt + n_queued cnt +
              int (length (filter (\<lambda>m. \<not> passed_over L al pr now tbl m) matches))"
    using a1(1,4,5) by blast
  show ?thesis using a1(2) d2 a2(2) first one e s by blast
qed

lemma m_id_ex_match: "m_id (ex_match i title summary ts) = i"
  by (simp add: ex_match_def)

lemma ex_claimed_first:
  "ex_claimed 100 =
     ([new_delivery (ex_alert ''oil'') 7 (fst (compute_dedupe_key ascii_lib (ex_match 7 ''Oil'' None 100)))
         (snd (compute_dedupe_key ascii_lib (ex_match 7 ''Oil'' None 100))) (str ''P0'') 100],
      ex_counters\<lparr>n_queued := 1, priority_counts := (priority_counts ex_counters)(str ''P0'' := 1)\<rparr>)"
  by (simp add: ex_claimed_def claim_matches_def dedupe_rows_def recent_keys_def claim_item_def
      claim_insert_def sql_insert_delivery_def priority_for_search_def ex_prefs_def ex_alert_def
      ex_counters_def strip_defs str_def split_beta Let_def m_id_ex_match)

theorem one_delivery_per_key_witness:
  "length (rows_of (1, 7, str ''email'') (mark_delivery_sent 200 (ex_due 7 0) (fst (ex_claimed 100)))) = 1 \<and>
   fst (claim_matches ascii_lib (ex_alert ''oil'') ex_prefs 300 [ex_match 7 ''Oil'' None 100]
          (mark_delivery_sent 200 (ex_due 7 0) (fst (ex_claimed 100)), snd (ex_claimed 100)))
     = mark_delivery_sent 200 (ex_due 7 0) (fst (ex_claimed 100)) \<and>
   n_queued (snd (claim_matches ascii_lib (ex_alert ''oil'') ex_prefs 300 [ex_match 7 ''Oil'' None 100]
          (mark_delivery_sent 200 (ex_due 7 0) (fst (ex_claimed 100)), snd (ex_claimed 100)))) = 1 \<and>
   n_skipped (snd (claim_matches ascii_lib (ex_alert ''oil'') ex_prefs 300 [ex_match 7 ''Oil'' None 100]
          (mark_delivery_sent 200 (ex_due 7 0) (fst (ex_claimed 100)), snd (ex_claimed 100)))) = 0 \<and>
   fst (claim_matches ascii_lib (ex_alert ''oil'') ex_prefs 21600000101 [ex_match 7 ''Oil'' None 100]
          (mark_delivery_sent 200 (ex_due 7 0) (fst (ex_claimed 100)), snd (ex_claimed 100)))
     = mark_delivery_sent 200 (ex_due 7 0) (fst (ex_claimed 100)) \<and>
   n_queued (snd (claim_matches ascii_lib (ex_alert ''oil'') ex_prefs 21600000101 [ex_match 7 ''Oil'' None 100]
          (mark_delivery_sent 200 (ex_due 7 0) (fst (ex_claimed 100)), snd (ex_claimed 100)))) = 1 \<and>
   n_skipped (snd (claim_matches ascii_lib (ex_alert ''oil'') ex_prefs 21600000101 [ex_match 7 ''Oil'' None 100]
          (mark_delivery_sent 200 (ex_due 7 0) (fst (ex_claimed 100)), snd (ex_claimed 100)))) = 1"
proof -
  let ?al = "ex_alert ''oil''"
  let ?m = "ex_match 7 ''Oil'' None 100"
  let ?tbl1 = "fst (ex_claimed 100)"
  let ?cnt1 = "snd (ex_claimed 100)"
  let ?tbl2 = "mark_delivery_sent 200 (ex_due 7 0) ?tbl1"
  have a1: "distinct (map key_of ([]::delivery list))" by simp
  have a2: "claim_matches ascii_lib ?al ex_prefs 100 [?m] ([], ex_counters) = (?tbl1, ?cnt1)"
    by (simp add: ex_claimed_def)
  have a3: "table_step\<^sup>*\<^sup>* ?tbl1 ?tbl2"
    by (rule r_into_rtranclp) (rule step_sent)
  have fresh: "\<not> passed_over ascii_lib ?al ex_prefs 100 [] ?m"
    by (simp add: passed_over_def recent_duplicate_def ex_prefs_def ex_alert_def str_def)
  have a5: "m_id ` set [?m] \<subseteq> m_id ` {m \<in> set [?m]. \<not> passed_over ascii_lib ?al ex_prefs 100 [] m}"
    using fresh by auto
  have early: "passed_over ascii_lib ?al ex_prefs 300 ?tbl2 ?m"
    unfolding ex_claimed_first
    by (simp add: passed_over_def recent_duplicate_def mark_delivery_sent_def sql_update_where_key_def
        set_sent_def key_of_def due_key_def new_delivery_def ex_due_def ex_prefs_def ex_alert_def
        usec_def)
  have late: "\<not> passed_over ascii_lib ?al ex_prefs 21600000101 ?tbl2 ?m"
    unfolding ex_claimed_first
    by (simp add: passed_over_def recent_duplicate_def mark_delivery_sent_def sql_update_where_key_def
        set_sent_def key_of_def due_key_def new_delivery_def ex_due_def ex_prefs_def ex_alert_def
        usec_def str_def)
  have c1: "n_queued ?cnt1 = 1" "n_skipped ?cnt1 = 0"
    unfolding ex_claimed_first by (simp_all add: ex_counters_def)
  have tr: "triple ?al ?m = (1, 7, str ''email'')"
    by (simp add: triple_def ex_alert_def m_id_ex_match)
  note first = one_delivery_per_key [OF a1 a2 a3 _ a5, of ex_prefs 300 ?cnt1
      "fst (claim_matches ascii_lib ?al ex_prefs 300 [?m] (?tbl2, ?cnt1))"
      "snd (claim_matches ascii_lib ?al ex_prefs 300 [?m] (?tbl2, ?cnt1))"]
  note second = one_delivery_per_key [OF a1 a2 a3 _ a5, of ex_prefs 21600000101 ?cnt1
      "fst (claim_matches ascii_lib ?al ex_prefs 21600000101 [?m] (?tbl2, ?cnt1))"
      "snd (claim_matches ascii_lib ?al ex_prefs 21600000101 [?m] (?tbl2, ?cnt1))"]
  show ?thesis using first second early late c1 tr by simp
qed

text \<open>The claim as stated fails: a second claim of the triple 300 microseconds after the
  first is inside the dedupe window and is passed over, so it is not counted as skipped.\<close>

theorem one_delivery_per_key_counterexample:
  "n_skipped (snd (claim_matches ascii_lib (ex_alert ''oil'') ex_prefs 300 [ex_match 7 ''Oil'' None 100]
                     (ex_claimed 100))) = 0 \<and>
   n_queued (snd (claim_matches ascii_lib (ex_alert ''oil'') ex_prefs 300 [ex_match 7 ''Oil'' None 100]
                     (ex_claimed 100))) = 1 \<and>
   length (fst (claim_matches ascii_lib (ex_alert ''oil'') ex_prefs 300 [ex_match 7 ''Oil'' None 100]
                     (ex_claimed 100))) = 1"
  unfolding ex_claimed_first
  by (simp add: claim_matches_def dedupe_rows_def recent_keys_def claim_item_def
      new_delivery_def ex_prefs_def ex_alert_def ex_counters_def usec_def split_beta Let_def
      m_id_ex_match)

subsection \<open>Escalation\<close>













lemma log_giveup_disabled:
  assumes "\<not> admin_notify_enabled L env"
  shows "\<exists>line. log_delivery_giveup L env now tg mail d err n nf = (nf, [line]) \<and>
           giveup_lines [line] = [line]"
  using assms by (simp add: log_delivery_giveup_def notify_admin_giveup_def Let_def giveup_lines_def)























subsection \<open>Dispatch of the email channel\<close>

lemma provider_sends_append:
  "provider_sends (xs @ ys) = provider_sends xs @ provider_sends ys"
  by (simp add: provider_sends_def)

lemma provider_sends_giveup:
  "provider_sends (snd (log_delivery_giveup L env now tg mail d err n nf)) = []"
  by (simp add: log_delivery_giveup_def notify_admin_giveup_def admin_should_notify_with_cooldown_def
      Let_def provider_sends_def split: sum.splits prod.splits if_splits)

lemma provider_sends_failed:
  "provider_sends (snd (snd (mark_delivery_failed L env now wall tg mail d err rb rm ma st))) = []"
  using provider_sends_giveup[of L env wall tg mail d err "dr_attempt_count d + 1" "snd st"]
  by (simp add: mark_delivery_failed_def Let_def provider_sends_def split: prod.splits)

lemma fail_one_table:
  "rs_deliveries (fail_one L env E rb rm ma err d st) =
     sql_update_where_key (due_key d)
       (set_failed (take 500 err) (compute_backoff_seconds (dr_attempt_count d + 1) rb rm)
          (x_now E (rs_tick st))) (rs_deliveries st)"
  by (simp add: fail_one_def mark_delivery_failed_def Let_def split: prod.splits)

lemma fail_one_sends:
  "provider_sends (rs_trace (fail_one L env E rb rm ma err d st)) = provider_sends (rs_trace st)"
proof -
  obtain tbl nf effs where m: "mark_delivery_failed L env (x_now E (rs_tick st)) (x_wall E (rs_tick st))
      (x_admin_telegram E (rs_tick st)) (x_admin_resend E (rs_tick st)) d err rb rm ma
      (rs_deliveries st, rs_notify_file st) = (tbl, nf, effs)"
    by (metis prod_cases3)
  have "provider_sends effs = []" using provider_sends_failed[of L env _ _ _ _ d err rb rm ma] m
    by (metis snd_conv)
  then show ?thesis by (simp add: fail_one_def Let_def m provider_sends_append)
qed

lemma sent_one_table:
  "rs_deliveries (sent_one E d st) =
     sql_update_where_key (due_key d) (set_sent (x_now E (rs_tick st))) (rs_deliveries st)"
  by (simp add: sent_one_def mark_delivery_sent_def)

lemma sent_one_sends: "provider_sends (rs_trace (sent_one E d st)) = provider_sends (rs_trace st)"
  by (simp add: sent_one_def)

lemma marked_empty: "marked ok err {} tbl tbl"
  by (simp add: marked_def)

lemma marked_step:
  assumes first: "tbl1 = sql_update_where_key k f tbl"
    and f: "\<And>d. key_of (f d) = key_of d \<and> d_status (f d) = (if ok then SENT else FAILED) \<and>
                 d_error (f d) = (if ok then None else Some (take 500 err))"
    and rest: "marked ok err keys tbl1 tbl2"
  shows "marked ok err (insert k keys) tbl tbl2"
proof -
  have len: "length tbl1 = length tbl" unfolding first by (simp add: sql_update_where_key_def)
  have row: "\<And>i. i < length tbl \<Longrightarrow> tbl1 ! i = (if key_of (tbl ! i) = k then f (tbl ! i) else tbl ! i)"
    unfolding first by (simp add: sql_update_where_key_def)
  have key1: "\<And>i. i < length tbl \<Longrightarrow> key_of (tbl1 ! i) = key_of (tbl ! i)"
    using row f by simp
  show ?thesis
    unfolding marked_def
  proof (intro conjI allI impI)
    show "length tbl2 = length tbl" using rest len by (simp add: marked_def)
  next
    fix i assume i: "i < length tbl"
    then have i1: "i < length tbl1" using len by simp
    from rest i1 have r: "key_of (tbl2 ! i) = key_of (tbl1 ! i)"
      "if key_of (tbl1 ! i) \<in> keys
       then d_status (tbl2 ! i) = (if ok then SENT else FAILED) \<and>
            d_error (tbl2 ! i) = (if ok then None else Some (take 500 err))
       else tbl2 ! i = tbl1 ! i"
      by (simp_all add: marked_def)
    show "key_of (tbl2 ! i) = key_of (tbl ! i)" using r(1) key1[OF i] by simp
    show "if key_of (tbl ! i) \<in> insert k keys
          then d_status (tbl2 ! i) = (if ok then SENT else FAILED) \<and>
               d_error (tbl2 ! i) = (if ok then None else Some (take 500 err))
          else tbl2 ! i = tbl ! i"
    proof (cases "key_of (tbl ! i) \<in> keys")
      case True
      then show ?thesis using r(2) key1[OF i] by simp
    next
      case False
      then have "tbl2 ! i = tbl1 ! i" using r(2) key1[OF i] by simp
      then show ?thesis using False row[OF i] f by simp
    qed
  qed
qed

lemma sent_fold:
  "marked True err (due_key ` fst ` set batch) (rs_deliveries st)
     (rs_deliveries (foldl (\<lambda>s (d, item). sent_one E d s) st batch)) \<and>
   provider_sends (rs_trace (foldl (\<lambda>s (d, item). sent_one E d s) st batch)) = provider_sends (rs_trace st)"
proof (induction batch arbitrary: st)
  case Nil
  then show ?case by (simp add: marked_empty)
next
  case (Cons b batch)
  obtain d item where b: "b = (d, item)" by (cases b) auto
  let ?st1 = "sent_one E d st"
  have ih: "marked True err (due_key ` fst ` set batch) (rs_deliveries ?st1)
     (rs_deliveries (foldl (\<lambda>s (d, item). sent_one E d s) ?st1 batch))"
    "provider_sends (rs_trace (foldl (\<lambda>s (d, item). sent_one E d s) ?st1 batch)) = provider_sends (rs_trace ?st1)"
    using Cons.IH[of ?st1] by simp_all
  have "marked True err (insert (due_key d) (due_key ` fst ` set batch)) (rs_deliveries st)
     (rs_deliveries (foldl (\<lambda>s (d, item). sent_one E d s) ?st1 batch))"
    by (rule marked_step[OF sent_one_table _ ih(1)]) (simp add: set_sent_def key_of_def)
  then show ?case using ih(2) by (simp add: b sent_one_sends)
qed

lemma failed_fold:
  "marked False err (due_key ` fst ` set batch) (rs_deliveries st)
     (rs_deliveries (foldl (\<lambda>s (d, item). fail_one L env E rb rm ma err d s) st batch)) \<and>
   provider_sends (rs_trace (foldl (\<lambda>s (d, item). fail_one L env E rb rm ma err d s) st batch)) =
     provider_sends (rs_trace st)"
proof (induction batch arbitrary: st)
  case Nil
  then show ?case by (simp add: marked_empty)
next
  case (Cons b batch)
  obtain d item where b: "b = (d, item)" by (cases b) auto
  let ?st1 = "fail_one L env E rb rm ma err d st"
  have ih: "marked False err (due_key ` fst ` set batch) (rs_deliveries ?st1)
     (rs_deliveries (foldl (\<lambda>s (d, item). fail_one L env E rb rm ma err d s) ?st1 batch))"
    "provider_sends (rs_trace (foldl (\<lambda>s (d, item). fail_one L env E rb rm ma err d s) ?st1 batch)) =
       provider_sends (rs_trace ?st1)"
    using Cons.IH[of ?st1] by simp_all
  have "marked False err (insert (due_key d) (due_key ` fst ` set batch)) (rs_deliveries st)
     (rs_deliveries (foldl (\<lambda>s (d, item). fail_one L env E rb rm ma err d s) ?st1 batch))"
    by (rule marked_step[OF fail_one_table _ ih(1)]) (simp add: set_failed_def key_of_def)
  then show ?case using ih(2) by (simp add: b fail_one_sends)
qed


lemma send_batch_marked:
  assumes "batch \<noteq> []"
  shows "batch_marked (x_resend E (rs_tick st)) batch (rs_deliveries st)
           (rs_deliveries (send_batch L env E rb rm ma al batch st)) \<and>
         length (provider_sends (rs_trace (send_batch L env E rb rm ma al batch st))) =
           length (provider_sends (rs_trace st)) + 1"
proof -
  obtain d0 item0 rest where b: "batch = (d0, item0) # rest" using assms by (cases batch) auto
  let ?answer = "x_resend E (rs_tick st)"
  let ?st1 = "st\<lparr>rs_trace := rs_trace st @
                  [ProviderEmail (dr_target d0) (al_name al) (length (group_batch batch)) (group_batch batch) ?answer],
                rs_tick := rs_tick st + 1\<rparr>"
  have t1: "rs_deliveries ?st1 = rs_deliveries st" by simp
  have s1: "length (provider_sends (rs_trace ?st1)) = length (provider_sends (rs_trace st)) + 1"
    by (simp add: provider_sends_def)
  have m: "marked (fst (ok_err ?answer)) (snd (ok_err ?answer)) (due_key ` fst ` set batch)
             (rs_deliveries st) (rs_deliveries (send_batch L env E rb rm ma al batch st)) \<and>
           length (provider_sends (rs_trace (send_batch L env E rb rm ma al batch st))) =
             length (provider_sends (rs_trace st)) + 1"
  proof (cases "fst (ok_err ?answer)")
    case True
    then obtain err where oe: "ok_err ?answer = (True, err)" by (cases "ok_err ?answer") auto
    have run: "send_batch L env E rb rm ma al batch st = foldl (\<lambda>s (d, item). sent_one E d s) ?st1 batch"
      unfolding send_batch_def b by (simp add: Let_def oe)
    show ?thesis unfolding run
      using sent_fold[of "snd (ok_err ?answer)" batch ?st1 E] True s1 by simp
  next
    case False
    then obtain err where oe: "ok_err ?answer = (False, err)" by (cases "ok_err ?answer") auto
    have run: "send_batch L env E rb rm ma al batch st =
        foldl (\<lambda>s (d, item). fail_one L env E rb rm ma (snd (ok_err ?answer)) d s) ?st1 batch"
      unfolding send_batch_def b by (simp add: Let_def oe)
    show ?thesis unfolding run
      using failed_fold[of "snd (ok_err ?answer)" batch ?st1 L env E rb rm ma] False s1 by simp
  qed
  have "batch_marked ?answer batch (rs_deliveries st)
          (rs_deliveries (send_batch L env E rb rm ma al batch st))"
  proof (cases ?answer)
    case SendOk
    then show ?thesis using m by (simp add: batch_marked_def marked_def ok_err_def)
  next
    case (SendFailed e)
    then show ?thesis using m by (simp add: batch_marked_def marked_def ok_err_def)
  next
    case (SendRaised e)
    then show ?thesis using m by (simp add: batch_marked_def marked_def ok_err_def)
  qed
  then show ?thesis using m by simp
qed

lemma chunks_Nil: "chunks n [] = []"
  by (simp add: chunks.simps)

lemma chunks_Cons: "0 < n \<Longrightarrow> chunks n (x # xs) = take n (x # xs) # chunks n (drop n (x # xs))"
  by (subst chunks.simps) simp

lemma chunks_props:
  "0 < n \<Longrightarrow> concat (chunks n xs) = xs \<and> (\<forall>b \<in> set (chunks n xs). b \<noteq> [] \<and> length b \<le> n)"
proof (induction n xs rule: chunks.induct)
  case (1 n xs)
  show ?case
  proof (cases xs)
    case Nil
    then show ?thesis by (simp add: chunks_Nil)
  next
    case (Cons y ys)
    then have "\<not> (n = 0 \<or> xs = [])" using "1.prems" by simp
    from "1.IH"[OF this "1.prems"] have ih: "concat (chunks n (drop n xs)) = drop n xs"
      "\<forall>b \<in> set (chunks n (drop n xs)). b \<noteq> [] \<and> length b \<le> n"
      by simp_all
    have c: "chunks n xs = take n xs # chunks n (drop n xs)"
      unfolding Cons using "1.prems" by (rule chunks_Cons)
    have "take n xs \<noteq> []" using Cons "1.prems" by (cases n) simp_all
    then show ?thesis unfolding c using ih by simp
  qed
qed

lemma batches_sends:
  "\<forall>b \<in> set bs. b \<noteq> [] \<Longrightarrow>
   length (provider_sends (rs_trace (foldl (\<lambda>s batch. send_batch L env E rb rm ma al batch s) st bs))) =
     length (provider_sends (rs_trace st)) + length bs"
proof (induction bs arbitrary: st)
  case Nil
  then show ?case by simp
next
  case (Cons b bs)
  then have "b \<noteq> []" by simp
  from send_batch_marked[OF this, of E st L env rb rm ma al]
  have "length (provider_sends (rs_trace (send_batch L env E rb rm ma al b st))) =
           length (provider_sends (rs_trace st)) + 1" by simp
  then show ?case using Cons.IH[of "send_batch L env E rb rm ma al b st"] Cons.prems by simp
qed

lemma collect_items_sends:
  "provider_sends (rs_trace (snd (collect_items L env E rb rm ma pr fetch due st))) =
     provider_sends (rs_trace st)"
proof (induction due arbitrary: st)
  case Nil
  then show ?case by simp
next
  case (Cons d due)
  show ?case
  proof (cases "priority_routed pr d")
    case False
    then show ?thesis using Cons.IH[of st] by simp
  next
    case True
    show ?thesis
    proof (cases "fetch (dr_article_id d)")
      case None
      then show ?thesis
        using True Cons.IH[of "fail_one L env E rb rm ma (str ''missing_article'') d st"]
        by (simp add: fail_one_sends)
    next
      case (Some item)
      obtain rest st2 where r: "collect_items L env E rb rm ma pr fetch due st = (rest, st2)"
        by (cases "collect_items L env E rb rm ma pr fetch due st") auto
      then show ?thesis using True Some Cons.IH[of st] by simp
    qed
  qed
qed

text \<open>
  C5. The email branch cuts the collected deliveries into batches of at most
  max\_items\_per\_email, none of them empty, and runs them one after the other; the
  number of sends to the provider is the number of batches. Each batch, in whatever
  state it starts, makes exactly one send, and then every delivery of the batch carries
  the one outcome of that send: all SENT with the error cleared when the provider call
  succeeded, all FAILED with the same recorded error when it failed or raised; the rows
  of other deliveries are untouched.
\<close>

theorem email_batches_uniform:
  assumes "dispatch_email L env E rb rm ma max_items_per_email al pr fetch due st = Inr st'"
    and "0 < max_items_per_email"
  shows "\<exists>items st1.
           collect_items L env E rb rm ma pr fetch due st = (items, st1) \<and>
           st' = foldl (\<lambda>s batch. send_batch L env E rb rm ma al batch s) st1
                   (chunks (nat max_items_per_email) items) \<and>
           concat (chunks (nat max_items_per_email) items) = items \<and>
           length (provider_sends (rs_trace st')) =
             length (provider_sends (rs_trace st)) + length (chunks (nat max_items_per_email) items) \<and>
           (\<forall>batch \<in> set (chunks (nat max_items_per_email) items).
              batch \<noteq> [] \<and> int (length batch) \<le> max_items_per_email \<and>
              (\<forall>s. batch_marked (x_resend E (rs_tick s)) batch (rs_deliveries s)
                     (rs_deliveries (send_batch L env E rb rm ma al batch s)) \<and>
                   length (provider_sends (rs_trace (send_batch L env E rb rm ma al batch s))) =
                     length (provider_sends (rs_trace s)) + 1))"
proof -
  obtain items st1 where c: "collect_items L env E rb rm ma pr fetch due st = (items, st1)"
    by (cases "collect_items L env E rb rm ma pr fetch due st") auto
  let ?bs = "chunks (nat max_items_per_email) items"
  have run: "st' = foldl (\<lambda>s batch. send_batch L env E rb rm ma al batch s) st1 ?bs"
    using assms by (simp add: dispatch_email_def c)
  have n: "0 < nat max_items_per_email" using assms(2) by simp
  note ch = chunks_props[OF n, of items]
  have ne: "\<forall>b \<in> set ?bs. b \<noteq> []" using ch by blast
  have "provider_sends (rs_trace st1) = provider_sends (rs_trace st)"
    using collect_items_sends[of L env E rb rm ma pr fetch due st] c by simp
  then have sends: "length (provider_sends (rs_trace st')) = length (provider_sends (rs_trace st)) + length ?bs"
    unfolding run using batches_sends[OF ne, of L env E rb rm ma al st1] by simp
  have each: "\<forall>batch \<in> set ?bs.
              batch \<noteq> [] \<and> int (length batch) \<le> max_items_per_email \<and>
              (\<forall>s. batch_marked (x_resend E (rs_tick s)) batch (rs_deliveries s)
                     (rs_deliveries (send_batch L env E rb rm ma al batch s)) \<and>
                   length (provider_sends (rs_trace (send_batch L env E rb rm ma al batch s))) =
                     length (provider_sends (rs_trace s)) + 1)"
  proof
    fix batch assume "batch \<in> set ?bs"
    then have b: "batch \<noteq> []" "length batch \<le> nat max_items_per_email" using ch by blast+
    then have "int (length batch) \<le> max_items_per_email" using assms(2) by linarith
    then show "batch \<noteq> [] \<and> int (length batch) \<le> max_items_per_email \<and>
              (\<forall>s. batch_marked (x_resend E (rs_tick s)) batch (rs_deliveries s)
                     (rs_deliveries (send_batch L env E rb rm ma al batch s)) \<and>
                   length (provider_sends (rs_trace (send_batch L env E rb rm ma al batch s))) =
                     length (provider_sends (rs_trace s)) + 1)"
      using b(1) send_batch_marked[OF b(1)] by blast
  qed
  show ?thesis using c run ch sends each by blast
qed

theorem email_batches_uniform_witness:
  "map (\<lambda>d. (d_status d, d_error d))
     (rs_deliveries (send_batch ascii_lib (ex_env False) (ex_ext SendOk)
        60 3600 5 (ex_alert ''oil'')
        [(ex_due 7 0, ex_match 7 ''Oil'' None 100), (ex_due 8 0, ex_match 8 ''Oil'' None 100)] ex_state))
   = [(SENT, None), (SENT, None)] \<and>
   map (\<lambda>d. (d_status d, d_error d))
     (rs_deliveries (send_batch ascii_lib (ex_env False) (ex_ext (SendRaised (str ''Timeout:slow'')))
        60 3600 5 (ex_alert ''oil'')
        [(ex_due 7 0, ex_match 7 ''Oil'' None 100), (ex_due 8 0, ex_match 8 ''Oil'' None 100)] ex_state))
   = [(FAILED, Some (str ''send_exception=Timeout:slow'')),
      (FAILED, Some (str ''send_exception=Timeout:slow''))] \<and>
   map (\<lambda>d. (d_status d, d_error d, d_attempt_count d))
     (rs_deliveries (send_batch ascii_lib (ex_env False) (ex_ext (SendFailed (str ''resend_status=500'')))
        60 3600 5 (ex_alert ''oil'')
        [(ex_due 7 0, ex_match 7 ''Oil'' None 100), (ex_due 8 0, ex_match 8 ''Oil'' None 100)] ex_state))
   = [(FAILED, Some (str ''resend_status=500''), 1), (FAILED, Some (str ''resend_status=500''), 1)] \<and>
   length (provider_sends (rs_trace
     (send_batch ascii_lib (ex_env False) (ex_ext (SendFailed (str ''resend_status=500'')))
        60 3600 5 (ex_alert ''oil'')
        [(ex_due 7 0, ex_match 7 ''Oil'' None 100), (ex_due 8 0, ex_match 8 ''Oil'' None 100)] ex_state))) = 1 \<and>
   dispatch_email ascii_lib (ex_env False) (ex_ext (SendFailed (str ''resend_status=500''))) 60 3600 5 50
     (ex_alert ''oil'') ex_prefs ex_fetch [ex_due 7 0, ex_due 8 0] ex_state
   = Inr (send_batch ascii_lib (ex_env False) (ex_ext (SendFailed (str ''resend_status=500'')))
        60 3600 5 (ex_alert ''oil'')
        [(ex_due 7 0, ex_match 7 ''Oil'' None 100), (ex_due 8 0, ex_match 8 ''Oil'' None 100)] ex_state)"
proof -
  let ?E = "ex_ext (SendFailed (str ''resend_status=500''))"
  let ?batch = "[(ex_due 7 0, ex_match 7 ''Oil'' None 100), (ex_due 8 0, ex_match 8 ''Oil'' None 100)]"
  let ?st' = "send_batch ascii_lib (ex_env False) ?E 60 3600 5 (ex_alert ''oil'') ?batch ex_state"
  have collect: "collect_items ascii_lib (ex_env False) ?E 60 3600 5 ex_prefs ex_fetch
                   [ex_due 7 0, ex_due 8 0] ex_state = (?batch, ex_state)"
    by (simp add: priority_routed_def ex_prefs_def ex_fetch_def ex_due_def str_def)
  have run: "dispatch_email ascii_lib (ex_env False) ?E 60 3600 5 50 (ex_alert ''oil'') ex_prefs ex_fetch
               [ex_due 7 0, ex_due 8 0] ex_state = Inr ?st'"
    unfolding dispatch_email_def collect by (simp add: chunks_Cons chunks_Nil)
  have pos: "(0::int) < 50" by simp
  from email_batches_uniform [OF run pos] obtain items st1 where
    c: "collect_items ascii_lib (ex_env False) ?E 60 3600 5 ex_prefs ex_fetch
          [ex_due 7 0, ex_due 8 0] ex_state = (items, st1)"
    and s: "length (provider_sends (rs_trace ?st')) =
              length (provider_sends (rs_trace ex_state)) + length (chunks (nat 50) items)"
    by blast
  have "items = ?batch" using c collect by simp
  then have sends: "length (provider_sends (rs_trace ?st')) =
                 length (provider_sends (rs_trace ex_state)) + length (chunks (nat 50) ?batch)"
    using s by simp
  then have one: "length (provider_sends (rs_trace ?st')) = 1"
    by (simp add: chunks_Cons chunks_Nil ex_state_def provider_sends_def)
  have rows: "map (\<lambda>d. (d_status d, d_error d, d_attempt_count d)) (rs_deliveries ?st') =
      [(FAILED, Some (str ''resend_status=500''), 1), (FAILED, Some (str ''resend_status=500''), 1)]"
    by (simp add: dispatch_defs ex3_defs mark_delivery_failed_def table_defs ex2_defs Let_def str_def)
  have ok: "map (\<lambda>d. (d_status d, d_error d))
     (rs_deliveries (send_batch ascii_lib (ex_env False) (ex_ext SendOk)
        60 3600 5 (ex_alert ''oil'') ?batch ex_state)) = [(SENT, None), (SENT, None)]"
    by (simp add: dispatch_defs ex3_defs table_defs ex2_defs Let_def str_def)
  have raised: "map (\<lambda>d. (d_status d, d_error d))
     (rs_deliveries (send_batch ascii_lib (ex_env False) (ex_ext (SendRaised (str ''Timeout:slow'')))
        60 3600 5 (ex_alert ''oil'') ?batch ex_state))
     = [(FAILED, Some (str ''send_exception=Timeout:slow'')),
        (FAILED, Some (str ''send_exception=Timeout:slow''))]"
    by (simp add: dispatch_defs ex3_defs mark_delivery_failed_def table_defs ex2_defs Let_def str_def)
  show ?thesis using ok raised rows one run by simp
qed

end
